theory Spec2Isabelle
  imports Main
begin

section \<open>Company import: the reconciliation engine of src/index.js\<close>

subsection \<open>JavaScript values and objects\<close>

text \<open>
  The rows produced by the parsers are plain objects whose property values are scalars.
  Numbers are kept as integers: the engine only tests a number for being zero and copies
  it. Truthiness is JavaScript's: \<open>undefined\<close>, \<open>null\<close>, \<open>false\<close>, \<open>0\<close> and the empty
  string are falsy.
\<close>

datatype jsval = JUndefined | JNull | JBool bool | JNum int | JStr string

fun truthy :: "jsval \<Rightarrow> bool" where
  "truthy JUndefined = False"
| "truthy JNull = False"
| "truthy (JBool b) = b"
| "truthy (JNum n) = (n \<noteq> 0)"
| "truthy (JStr s) = (s \<noteq> [])"

text \<open>
  An object is its list of properties in insertion order. Reading a property that is
  not there gives \<open>undefined\<close>; assigning keeps the position of a property that exists
  and appends a new one.
\<close>

type_synonym obj = "(string \<times> jsval) list"

definition js_get :: "obj \<Rightarrow> string \<Rightarrow> jsval" where
  "js_get ob k = (case map_of ob k of None \<Rightarrow> JUndefined | Some v \<Rightarrow> v)"

fun js_set :: "obj \<Rightarrow> string \<Rightarrow> jsval \<Rightarrow> obj" where
  "js_set [] k v = [(k, v)]"
| "js_set ((k', v') # ob) k v =
     (if k' = k then (k, v) # ob else (k', v') # js_set ob k v)"

definition js_keys :: "obj \<Rightarrow> string list" where
  "js_keys ob = map fst ob"

subsection \<open>The schema\<close>

text \<open>
  \<open>companySchema\<close> declares five paths, all of type \<open>String\<close>. The \<open>Company\<close> model
  writes through it: a property the schema does not declare is left out, and a value is
  cast to a string, a number by its decimal notation (which is what \<open>toString\<close> gives for
  the integers below \<open>10^21\<close>), a boolean as \<open>true\<close> or \<open>false\<close>. \<open>null\<close> and
  \<open>undefined\<close>, which the parsers never produce, are left as they are.
\<close>

definition companySchema :: "string list" where
  "companySchema = [''name'', ''industry'', ''location'', ''email'', ''phone'']"

fun digits10 :: "nat \<Rightarrow> string" where
  "digits10 n =
     (if n < 10 then [''0123456789'' ! n]
      else digits10 (n div 10) @ [''0123456789'' ! (n mod 10)])"

declare digits10.simps [simp del]

definition num_string :: "int \<Rightarrow> string" where
  "num_string n = (if n < 0 then CHR ''-'' # digits10 (nat (- n)) else digits10 (nat n))"

fun cast_string :: "jsval \<Rightarrow> jsval" where
  "cast_string (JBool b) = JStr (if b then ''true'' else ''false'')"
| "cast_string (JNum n) = JStr (num_string n)"
| "cast_string v = v"

text \<open>What the schema makes of an object: its declared properties, cast.\<close>

definition cast_doc :: "obj \<Rightarrow> obj" where
  "cast_doc ob =
     fold (\<lambda>key d. js_set d key (cast_string (js_get ob key)))
          (filter (\<lambda>key. key \<in> set companySchema) (js_keys ob)) []"

text \<open>
  \<open>findOne\<close> answers with a document of the model, not with the stored object, and the
  engine only tests its properties for truthiness (\<open>!existingCompany[key]\<close>). For a path
  of the schema the document gives the stored value, cast. For any other key it gives what
  a document of the library has under that name, whatever is stored: \<open>undefined\<close> for an
  ordinary column name, a truthy value for \<open>id\<close>, \<open>_id\<close> and the names of the
  document's methods. Which keys these are belongs to the library, so it is a parameter:
  \<open>dp key\<close> says whether the key reads truthy.
\<close>

type_synonym doc_props = "string \<Rightarrow> bool"

definition doc_truthy :: "doc_props \<Rightarrow> obj \<Rightarrow> string \<Rightarrow> bool" where
  "doc_truthy dp existingCompany key =
     (if key \<in> set companySchema then truthy (cast_string (js_get existingCompany key))
      else dp key)"

subsection \<open>The record store\<close>

text \<open>
  The store is the collection behind the \<open>Company\<close> model: a sequence of documents,
  looked up by their \<open>email\<close>, reached through \<open>findOne\<close>, \<open>create\<close>, \<open>updateOne\<close>,
  \<open>deleteOne\<close> and \<open>find\<close>. A document is kept as the object of its fields; the
  \<open>_id\<close> and \<open>__v\<close> the library adds are not kept, and a column of a row that
  bears one of these names is treated like any column the schema does not declare. Every
  request sent to the
  database is recorded in \<open>oplog\<close>, and every request may fail, because the database
  does or because the model refuses what it is given: the fault plan says, for the n-th
  request, whether it fails and with which message. A request that fails leaves the
  documents as they were. The unique index on \<open>email\<close> is not part of the model: the
  properties below do not rely on it.

  The model casts the email of a query to a string, and a stored email matches when it is
  that string. \<open>create\<close> stores what the schema makes of the row. \<open>updateOne\<close> casts
  its \<open>$set\<close> through the schema, assigns what is left on the first document with the
  email, and sends nothing when nothing is left.
\<close>

datatype error = ParseError string | StoreError string

datatype store_op =
    FindOne jsval
  | Create obj
  | UpdateOne jsval obj
  | DeleteOne jsval
  | Find "string list"

record store =
  docs :: "obj list"
  oplog :: "store_op list"

type_synonym faults = "nat \<Rightarrow> string option"

type_synonym 'a io = "store \<Rightarrow> (error + 'a) \<times> store"

definition resolve :: "'a \<Rightarrow> 'a io" where
  "resolve x s = (Inr x, s)"

definition await :: "'a io \<Rightarrow> ('a \<Rightarrow> 'b io) \<Rightarrow> 'b io" where
  "await m f s = (case m s of (Inl err, s') \<Rightarrow> (Inl err, s') | (Inr x, s') \<Rightarrow> f x s')"

definition call :: "faults \<Rightarrow> store_op \<Rightarrow> (obj list \<Rightarrow> 'a \<times> obj list) \<Rightarrow> 'a io" where
  "call fl op run s =
     (case fl (length (oplog s)) of
        Some msg \<Rightarrow> (Inl (StoreError msg), s\<lparr>oplog := oplog s @ [op]\<rparr>)
      | None \<Rightarrow> (Inr (fst (run (docs s))),
                 \<lparr>docs = snd (run (docs s)), oplog = oplog s @ [op]\<rparr>))"

definition has_email :: "jsval \<Rightarrow> obj \<Rightarrow> bool" where
  "has_email q d = (js_get d ''email'' = q)"

fun update_first :: "('a \<Rightarrow> bool) \<Rightarrow> ('a \<Rightarrow> 'a) \<Rightarrow> 'a list \<Rightarrow> 'a list" where
  "update_first P f [] = []"
| "update_first P f (d # ds) = (if P d then f d # ds else d # update_first P f ds)"

fun delete_first :: "('a \<Rightarrow> bool) \<Rightarrow> 'a list \<Rightarrow> 'a list" where
  "delete_first P [] = []"
| "delete_first P (d # ds) = (if P d then ds else d # delete_first P ds)"

text \<open>\<open>$set\<close> on a document: every property of \<open>u\<close> is assigned.\<close>

definition apply_set :: "obj \<Rightarrow> obj \<Rightarrow> obj" where
  "apply_set u d = fold (\<lambda>key d'. js_set d' key (js_get u key)) (js_keys u) d"

definition findOne :: "faults \<Rightarrow> jsval \<Rightarrow> (obj option) io" where
  "findOne fl e =
     call fl (FindOne (cast_string e)) (\<lambda>ds. (find (has_email (cast_string e)) ds, ds))"

definition create :: "faults \<Rightarrow> obj \<Rightarrow> unit io" where
  "create fl company = call fl (Create (cast_doc company)) (\<lambda>ds. ((), ds @ [cast_doc company]))"

definition updateOne :: "faults \<Rightarrow> jsval \<Rightarrow> obj \<Rightarrow> unit io" where
  "updateOne fl e update =
     (if cast_doc update = [] then resolve ()
      else call fl (UpdateOne (cast_string e) (cast_doc update))
             (\<lambda>ds. ((), update_first (has_email (cast_string e)) (apply_set (cast_doc update)) ds)))"

text \<open>\<open>deleteOne\<close> returns \<open>deletedCount\<close>.\<close>

definition deleteOne :: "faults \<Rightarrow> jsval \<Rightarrow> nat io" where
  "deleteOne fl e =
     call fl (DeleteOne (cast_string e))
       (\<lambda>ds. (if find (has_email (cast_string e)) ds = None then 0 else 1,
              delete_first (has_email (cast_string e)) ds))"

definition project :: "string list \<Rightarrow> obj \<Rightarrow> obj" where
  "project proj d = filter (\<lambda>p. fst p \<in> set proj) d"

definition find_docs :: "faults \<Rightarrow> string list \<Rightarrow> (obj list) io" where
  "find_docs fl proj = call fl (Find proj) (\<lambda>ds. (map (project proj) ds, ds))"

subsection \<open>importCompanies\<close>

record counters =
  inserted :: nat
  updated :: nat
  skipped :: nat

text \<open>
  The inner \<open>for (const key in company)\<close> loop of the two no-overwrite branches, which
  builds the object \<open>update\<close> from the keys with
  \<open>!existingCompany[key] && company[key]\<close>.
\<close>

definition merge_fill :: "doc_props \<Rightarrow> obj \<Rightarrow> obj \<Rightarrow> obj" where
  "merge_fill dp existingCompany company =
     fold (\<lambda>key update.
             if \<not> doc_truthy dp existingCompany key \<and> truthy (js_get company key)
             then js_set update key (js_get company key) else update)
          (js_keys company) []"

text \<open>
  The body of the \<open>for (const company of companies)\<close> loop. The \<open>switch\<close> has five
  cases and no default: any other mode falls through with no counter changed.
\<close>

definition body :: "faults \<Rightarrow> doc_props \<Rightarrow> string \<Rightarrow> obj \<Rightarrow> counters \<Rightarrow> counters io" where
  "body fl dp importMode company c =
     (if \<not> truthy (js_get company ''email'') then resolve (c\<lparr>skipped := skipped c + 1\<rparr>)
      else
        await (findOne fl (js_get company ''email'')) (\<lambda>existingCompany.
          if importMode = ''create_new'' then
            (case existingCompany of
               None \<Rightarrow> await (create fl company) (\<lambda>_. resolve (c\<lparr>inserted := inserted c + 1\<rparr>))
             | Some ex \<Rightarrow> resolve (c\<lparr>skipped := skipped c + 1\<rparr>))
          else if importMode = ''create_update_no_overwrite'' then
            (case existingCompany of
               None \<Rightarrow> await (create fl company) (\<lambda>_. resolve (c\<lparr>inserted := inserted c + 1\<rparr>))
             | Some ex \<Rightarrow>
                 if length (js_keys (merge_fill dp ex company)) > 0
                 then await (updateOne fl (js_get company ''email'') (merge_fill dp ex company))
                        (\<lambda>_. resolve (c\<lparr>updated := updated c + 1\<rparr>))
                 else resolve (c\<lparr>skipped := skipped c + 1\<rparr>))
          else if importMode = ''create_update_overwrite'' then
            (case existingCompany of
               None \<Rightarrow> await (create fl company) (\<lambda>_. resolve (c\<lparr>inserted := inserted c + 1\<rparr>))
             | Some ex \<Rightarrow>
                 await (updateOne fl (js_get company ''email'') company)
                   (\<lambda>_. resolve (c\<lparr>updated := updated c + 1\<rparr>)))
          else if importMode = ''update_no_overwrite'' then
            (case existingCompany of
               Some ex \<Rightarrow>
                 if length (js_keys (merge_fill dp ex company)) > 0
                 then await (updateOne fl (js_get company ''email'') (merge_fill dp ex company))
                        (\<lambda>_. resolve (c\<lparr>updated := updated c + 1\<rparr>))
                 else resolve (c\<lparr>skipped := skipped c + 1\<rparr>)
             | None \<Rightarrow> resolve (c\<lparr>skipped := skipped c + 1\<rparr>))
          else if importMode = ''update_overwrite'' then
            (case existingCompany of
               Some ex \<Rightarrow>
                 await (updateOne fl (js_get company ''email'') company)
                   (\<lambda>_. resolve (c\<lparr>updated := updated c + 1\<rparr>))
             | None \<Rightarrow> resolve (c\<lparr>skipped := skipped c + 1\<rparr>))
          else resolve c))"

fun loop :: "faults \<Rightarrow> doc_props \<Rightarrow> string \<Rightarrow> obj list \<Rightarrow> counters \<Rightarrow> counters io" where
  "loop fl dp importMode [] c = resolve c"
| "loop fl dp importMode (company # rest) c =
     await (body fl dp importMode company c) (loop fl dp importMode rest)"

definition importCompanies :: "faults \<Rightarrow> doc_props \<Rightarrow> obj list \<Rightarrow> string \<Rightarrow> counters io" where
  "importCompanies fl dp companies importMode =
     loop fl dp importMode companies \<lparr>inserted = 0, updated = 0, skipped = 0\<rparr>"

subsection \<open>The routes\<close>

text \<open>
  A response is a status code and a JSON body. The upload, when there is one, is given by
  what \<open>processFile\<close> makes of it: the parsed rows, or the parser's failure. The mode is
  the \<open>importMode\<close> field of the request body, which may be missing.
\<close>

datatype payload =
    Message string
  | Summary string nat nat nat
  | Companies "obj list"

datatype response = Response nat payload

fun error_message :: "error \<Rightarrow> string" where
  "error_message (ParseError m) = m"
| "error_message (StoreError m) = m"

definition post_import ::
  "faults \<Rightarrow> doc_props \<Rightarrow> (error + obj list) option \<Rightarrow> string option \<Rightarrow> store \<Rightarrow> response \<times> store" where
  "post_import fl dp upload importMode s =
     (case upload of
        None \<Rightarrow> (Response 400 (Message ''No file uploaded''), s)
      | Some parsed \<Rightarrow>
          (case importMode of
             None \<Rightarrow> (Response 400 (Message ''Import mode is required''), s)
           | Some m \<Rightarrow>
               if m = [] then (Response 400 (Message ''Import mode is required''), s)
               else
                 (case parsed of
                    Inl err \<Rightarrow> (Response 500 (Message (error_message err)), s)
                  | Inr companies \<Rightarrow>
                      (case importCompanies fl dp companies m s of
                         (Inl err, s') \<Rightarrow> (Response 500 (Message (error_message err)), s')
                       | (Inr result, s') \<Rightarrow>
                           (Response 200
                              (Summary ''success'' (inserted result) (updated result)
                                 (skipped result)), s')))))"

definition get_companies :: "faults \<Rightarrow> store \<Rightarrow> response \<times> store" where
  "get_companies fl s =
     (case find_docs fl [''name'', ''industry'', ''email'', ''phone''] s of
        (Inl err, s') \<Rightarrow> (Response 500 (Message (error_message err)), s')
      | (Inr companies, s') \<Rightarrow> (Response 200 (Companies companies), s'))"

definition delete_company :: "faults \<Rightarrow> string \<Rightarrow> store \<Rightarrow> response \<times> store" where
  "delete_company fl email s =
     (case deleteOne fl (JStr email) s of
        (Inl err, s') \<Rightarrow> (Response 500 (Message (error_message err)), s')
      | (Inr deletedCount, s') \<Rightarrow>
          if deletedCount = 0 then (Response 404 (Message ''Company not found''), s')
          else (Response 200 (Message ''Company deleted successfully''), s'))"

text \<open>Any sequence of requests, served one after the other.\<close>

datatype request =
    PostImport "(error + obj list) option" "string option"
  | GetCompanies
  | DeleteCompany string

fun serve :: "faults \<Rightarrow> doc_props \<Rightarrow> request \<Rightarrow> store \<Rightarrow> response \<times> store" where
  "serve fl dp (PostImport upload importMode) s = post_import fl dp upload importMode s"
| "serve fl dp GetCompanies s = get_companies fl s"
| "serve fl dp (DeleteCompany email) s = delete_company fl email s"

fun serve_all :: "faults \<Rightarrow> doc_props \<Rightarrow> request list \<Rightarrow> store \<Rightarrow> store" where
  "serve_all fl dp [] s = s"
| "serve_all fl dp (r # rs) s = serve_all fl dp rs (snd (serve fl dp r s))"

text \<open>At most one document for each non-empty email.\<close>

definition unique_emails :: "obj list \<Rightarrow> bool" where
  "unique_emails ds = distinct (filter truthy (map (\<lambda>d. js_get d ''email'') ds))"

definition reliable :: faults where
  "reliable = (\<lambda>n. None)"

text \<open>
  The document reading used in the examples, whose rows have no other key outside the
  schema than \<open>id\<close> and \<open>website\<close>: \<open>id\<close> and \<open>_id\<close> read truthy, an ordinary
  column name reads \<open>undefined\<close>.
\<close>

definition plain_document :: doc_props where
  "plain_document key = (key = ''id'' \<or> key = ''_id'')"

section \<open>Properties\<close>

subsection \<open>Objects\<close>

lemma js_get_js_set: "js_get (js_set ob k v) k' = (if k' = k then v else js_get ob k')"
  by (induction ob) (auto simp: js_get_def)

lemma js_keys_js_set_list:
  "js_keys (js_set ob k v) = (if k \<in> set (js_keys ob) then js_keys ob else js_keys ob @ [k])"
  by (induction ob k v rule: js_set.induct) (simp_all add: js_keys_def)

lemma js_keys_js_set: "set (js_keys (js_set ob k v)) = insert k (set (js_keys ob))"
  by (simp add: js_keys_js_set_list insert_absorb)

lemma js_get_absent: "k \<notin> set (js_keys ob) \<Longrightarrow> js_get ob k = JUndefined"
  by (simp add: js_get_def js_keys_def map_of_eq_None_iff[THEN iffD2])

lemma truthy_present: "truthy (js_get ob k) \<Longrightarrow> k \<in> set (js_keys ob)"
  using js_get_absent by fastforce

lemma js_keys_empty_iff: "ob = [] \<longleftrightarrow> set (js_keys ob) = {}"
  by (simp add: js_keys_def)

lemma fold_set_get:
  "js_get (fold (\<lambda>key d'. js_set d' key (js_get u key)) ks d) k =
     (if k \<in> set ks then js_get u k else js_get d k)"
  by (induction ks arbitrary: d) (auto simp: js_get_js_set)

lemma js_get_apply_set:
  "js_get (apply_set u d) k = (if k \<in> set (js_keys u) then js_get u k else js_get d k)"
  by (simp add: apply_set_def fold_set_get)


subsection \<open>The schema's cast\<close>

lemma digits10_nonempty: "digits10 n \<noteq> []"
  by (subst digits10.simps) simp

lemma truthy_cast: "truthy v \<Longrightarrow> truthy (cast_string v)"
  by (cases v) (simp_all add: num_string_def digits10_nonempty)

lemma fold_cast_get:
  "js_get (fold (\<lambda>key d. js_set d key (cast_string (js_get ob key))) ks acc) k =
     (if k \<in> set ks then cast_string (js_get ob k) else js_get acc k)"
  by (induction ks arbitrary: acc) (auto simp: js_get_js_set)

lemma fold_cast_keys:
  "set (js_keys (fold (\<lambda>key d. js_set d key (cast_string (js_get ob key))) ks acc)) =
     set (js_keys acc) \<union> set ks"
  by (induction ks arbitrary: acc) (auto simp: js_keys_js_set)

lemma js_get_cast_doc:
  "js_get (cast_doc ob) k =
     (if k \<in> set (js_keys ob) \<and> k \<in> set companySchema then cast_string (js_get ob k)
      else JUndefined)"
proof -
  have "js_get ([] :: obj) k = JUndefined" by (simp add: js_get_def)
  then show ?thesis by (simp add: cast_doc_def fold_cast_get)
qed

lemma keys_cast_doc:
  "set (js_keys (cast_doc ob)) = {k \<in> set (js_keys ob). k \<in> set companySchema}"
proof -
  have "set (js_keys ([] :: obj)) = {}" by (simp add: js_keys_def)
  then show ?thesis by (auto simp: cast_doc_def fold_cast_keys)
qed

lemma cast_doc_empty_iff:
  "cast_doc ob = [] \<longleftrightarrow> (\<forall>k \<in> set (js_keys ob). k \<notin> set companySchema)"
  by (subst js_keys_empty_iff) (auto simp: keys_cast_doc)

lemma js_get_stored:
  "js_get (apply_set (cast_doc u) d) k =
     (if k \<in> set (js_keys u) \<and> k \<in> set companySchema then cast_string (js_get u k)
      else js_get d k)"
  by (simp add: js_get_apply_set keys_cast_doc js_get_cast_doc)

subsection \<open>The change set of the no-overwrite modes\<close>

lemma fold_fill_get:
  "js_get (fold (\<lambda>key update.
             if \<not> doc_truthy dp ex key \<and> truthy (js_get co key)
             then js_set update key (js_get co key) else update) ks acc) k =
     (if k \<in> set ks \<and> \<not> doc_truthy dp ex k \<and> truthy (js_get co k)
      then js_get co k else js_get acc k)"
  by (induction ks arbitrary: acc) (auto simp: js_get_js_set)

lemma fold_fill_keys:
  "set (js_keys (fold (\<lambda>key update.
             if \<not> doc_truthy dp ex key \<and> truthy (js_get co key)
             then js_set update key (js_get co key) else update) ks acc)) =
     set (js_keys acc) \<union> {k \<in> set ks. \<not> doc_truthy dp ex k \<and> truthy (js_get co k)}"
  by (induction ks arbitrary: acc) (auto simp: js_keys_js_set)

lemma keys_merge_fill:
  "set (js_keys (merge_fill dp ex co)) = {k. \<not> doc_truthy dp ex k \<and> truthy (js_get co k)}"
proof -
  have "set (js_keys ([] :: obj)) = {}" by (simp add: js_keys_def)
  then show ?thesis
    unfolding merge_fill_def fold_fill_keys using truthy_present by auto
qed

lemma js_get_merge_fill:
  "js_get (merge_fill dp ex co) k =
     (if \<not> doc_truthy dp ex k \<and> truthy (js_get co k) then js_get co k else JUndefined)"
proof -
  have "js_get (merge_fill dp ex co) k =
          (if k \<in> set (js_keys co) \<and> \<not> doc_truthy dp ex k \<and> truthy (js_get co k)
           then js_get co k else js_get [] k)"
    unfolding merge_fill_def by (rule fold_fill_get)
  also have "\<dots> = (if \<not> doc_truthy dp ex k \<and> truthy (js_get co k)
                    then js_get co k else JUndefined)"
    using truthy_present [of co k] by (simp add: js_get_def)
  finally show ?thesis .
qed


lemma js_get_filled:
  "js_get (apply_set (cast_doc (merge_fill dp ex co)) d) k =
     (if k \<in> set companySchema \<and> \<not> doc_truthy dp ex k \<and> truthy (js_get co k)
      then cast_string (js_get co k) else js_get d k)"
  by (simp add: js_get_stored keys_merge_fill js_get_merge_fill)

subsection \<open>Updating the first match\<close>

lemma length_update_first: "length (update_first P f ds) = length ds"
  by (induction ds) auto


lemma nth_update_first:
  "find P ds = Some ex \<Longrightarrow> i < length ds \<Longrightarrow>
     update_first P f ds ! i = ds ! i \<or> (ds ! i = ex \<and> update_first P f ds ! i = f ex)"
  by (induction ds arbitrary: i) (auto simp: nth_Cons split: if_splits nat.splits)

lemma find_update_first:
  "find P ds = Some ex \<Longrightarrow> P (f ex) \<Longrightarrow> find P (update_first P f ds) = Some (f ex)"
  by (induction ds) (auto split: if_splits)

lemma map_update_first:
  "(\<And>d. P d \<Longrightarrow> g (f d) = g d) \<Longrightarrow> map g (update_first P f ds) = map g ds"
  by (induction ds) auto

lemma find_update_other:
  "(\<And>d. P d \<Longrightarrow> \<not> Q d \<and> \<not> Q (f d)) \<Longrightarrow> find Q (update_first P f ds) = find Q ds"
  by (induction ds) auto

subsection \<open>What one record can do to the documents\<close>

lemma body_docs:
  assumes "body fl dp m co c s = (r, s')"
  shows "docs s' = docs s
    \<or> (truthy (js_get co ''email'')
         \<and> find (has_email (cast_string (js_get co ''email''))) (docs s) = None
         \<and> m \<in> {''create_new'', ''create_update_no_overwrite'', ''create_update_overwrite''}
         \<and> docs s' = docs s @ [cast_doc co])
    \<or> (truthy (js_get co ''email'')
         \<and> find (has_email (cast_string (js_get co ''email''))) (docs s) \<noteq> None
         \<and> m \<in> {''create_update_overwrite'', ''update_overwrite''}
         \<and> docs s' = update_first (has_email (cast_string (js_get co ''email'')))
                        (apply_set (cast_doc co)) (docs s))
    \<or> (\<exists>ex. truthy (js_get co ''email'')
         \<and> find (has_email (cast_string (js_get co ''email''))) (docs s) = Some ex
         \<and> m \<in> {''create_update_no_overwrite'', ''update_no_overwrite''}
         \<and> docs s' = update_first (has_email (cast_string (js_get co ''email'')))
                        (apply_set (cast_doc (merge_fill dp ex co))) (docs s))"
  using assms
  unfolding body_def await_def resolve_def findOne_def create_def updateOne_def call_def
  by (auto split: option.splits if_splits)

subsection \<open>One record: what the loop body does with the answers of the store\<close>

lemma findOne_ok:
  "fl (length (oplog s)) = None \<Longrightarrow>
     findOne fl e s =
       (Inr (find (has_email (cast_string e)) (docs s)),
        s\<lparr>oplog := oplog s @ [FindOne (cast_string e)]\<rparr>)"
  by (simp add: findOne_def call_def)

lemma findOne_fails:
  "fl (length (oplog s)) = Some msg \<Longrightarrow>
     findOne fl e s = (Inl (StoreError msg), s\<lparr>oplog := oplog s @ [FindOne (cast_string e)]\<rparr>)"
  by (simp add: findOne_def call_def)

lemma create_ok:
  "fl (length (oplog s)) = None \<Longrightarrow>
     create fl co s =
       (Inr (), \<lparr>docs = docs s @ [cast_doc co], oplog = oplog s @ [Create (cast_doc co)]\<rparr>)"
  by (simp add: create_def call_def)

lemma create_fails:
  "fl (length (oplog s)) = Some msg \<Longrightarrow>
     create fl co s = (Inl (StoreError msg), s\<lparr>oplog := oplog s @ [Create (cast_doc co)]\<rparr>)"
  by (simp add: create_def call_def)


lemma updateOne_ok:
  "cast_doc u \<noteq> [] \<Longrightarrow> fl (length (oplog s)) = None \<Longrightarrow>
     updateOne fl e u s =
       (Inr (), \<lparr>docs = update_first (has_email (cast_string e)) (apply_set (cast_doc u)) (docs s),
                 oplog = oplog s @ [UpdateOne (cast_string e) (cast_doc u)]\<rparr>)"
  by (simp add: updateOne_def call_def)

lemma updateOne_fails:
  "cast_doc u \<noteq> [] \<Longrightarrow> fl (length (oplog s)) = Some msg \<Longrightarrow>
     updateOne fl e u s =
       (Inl (StoreError msg), s\<lparr>oplog := oplog s @ [UpdateOne (cast_string e) (cast_doc u)]\<rparr>)"
  by (simp add: updateOne_def call_def)

lemma body_lookup_fails:
  assumes "truthy (js_get co ''email'')" and "fl (length (oplog s)) = Some msg"
  shows "body fl dp m co c s =
     (Inl (StoreError msg), s\<lparr>oplog := oplog s @ [FindOne (cast_string (js_get co ''email''))]\<rparr>)"
  using assms by (simp add: body_def await_def findOne_fails)

lemma body_found:
  assumes "truthy (js_get co ''email'')" and "fl (length (oplog s)) = None"
  shows "body fl dp m co c s =
      (let existingCompany = find (has_email (cast_string (js_get co ''email''))) (docs s);
           s1 = s\<lparr>oplog := oplog s @ [FindOne (cast_string (js_get co ''email''))]\<rparr> in
          (if m = ''create_new'' then
            (case existingCompany of
               None \<Rightarrow> await (create fl co) (\<lambda>_. resolve (c\<lparr>inserted := inserted c + 1\<rparr>))
             | Some ex \<Rightarrow> resolve (c\<lparr>skipped := skipped c + 1\<rparr>))
          else if m = ''create_update_no_overwrite'' then
            (case existingCompany of
               None \<Rightarrow> await (create fl co) (\<lambda>_. resolve (c\<lparr>inserted := inserted c + 1\<rparr>))
             | Some ex \<Rightarrow>
                 if length (js_keys (merge_fill dp ex co)) > 0
                 then await (updateOne fl (js_get co ''email'') (merge_fill dp ex co))
                        (\<lambda>_. resolve (c\<lparr>updated := updated c + 1\<rparr>))
                 else resolve (c\<lparr>skipped := skipped c + 1\<rparr>))
          else if m = ''create_update_overwrite'' then
            (case existingCompany of
               None \<Rightarrow> await (create fl co) (\<lambda>_. resolve (c\<lparr>inserted := inserted c + 1\<rparr>))
             | Some ex \<Rightarrow>
                 await (updateOne fl (js_get co ''email'') co)
                   (\<lambda>_. resolve (c\<lparr>updated := updated c + 1\<rparr>)))
          else if m = ''update_no_overwrite'' then
            (case existingCompany of
               Some ex \<Rightarrow>
                 if length (js_keys (merge_fill dp ex co)) > 0
                 then await (updateOne fl (js_get co ''email'') (merge_fill dp ex co))
                        (\<lambda>_. resolve (c\<lparr>updated := updated c + 1\<rparr>))
                 else resolve (c\<lparr>skipped := skipped c + 1\<rparr>)
             | None \<Rightarrow> resolve (c\<lparr>skipped := skipped c + 1\<rparr>))
          else if m = ''update_overwrite'' then
            (case existingCompany of
               Some ex \<Rightarrow>
                 await (updateOne fl (js_get co ''email'') co)
                   (\<lambda>_. resolve (c\<lparr>updated := updated c + 1\<rparr>))
             | None \<Rightarrow> resolve (c\<lparr>skipped := skipped c + 1\<rparr>))
          else resolve c) s1)"
  using assms by (simp add: body_def await_def findOne_ok Let_def)

lemma body_insert:
  assumes "truthy (js_get co ''email'')"
    and "fl (length (oplog s)) = None" and "fl (Suc (length (oplog s))) = None"
    and "find (has_email (cast_string (js_get co ''email''))) (docs s) = None"
    and "m \<in> {''create_new'', ''create_update_no_overwrite'', ''create_update_overwrite''}"
  shows "body fl dp m co c s =
     (Inr (c\<lparr>inserted := inserted c + 1\<rparr>),
      \<lparr>docs = docs s @ [cast_doc co],
       oplog = oplog s @ [FindOne (cast_string (js_get co ''email'')), Create (cast_doc co)]\<rparr>)"
  using assms by (auto simp: body_found await_def resolve_def create_ok)

lemma body_insert_fails:
  assumes "truthy (js_get co ''email'')"
    and "fl (length (oplog s)) = None" and "fl (Suc (length (oplog s))) = Some msg"
    and "find (has_email (cast_string (js_get co ''email''))) (docs s) = None"
    and "m \<in> {''create_new'', ''create_update_no_overwrite'', ''create_update_overwrite''}"
  shows "body fl dp m co c s =
     (Inl (StoreError msg),
      s\<lparr>oplog := oplog s @ [FindOne (cast_string (js_get co ''email'')), Create (cast_doc co)]\<rparr>)"
  using assms by (auto simp: body_found await_def resolve_def create_fails)

lemma body_lookup_only:
  assumes "truthy (js_get co ''email'')" and "fl (length (oplog s)) = None"
    and "(find (has_email (cast_string (js_get co ''email''))) (docs s) = None
            \<and> m \<in> {''update_no_overwrite'', ''update_overwrite''})
         \<or> (find (has_email (cast_string (js_get co ''email''))) (docs s) \<noteq> None
              \<and> m = ''create_new'')
         \<or> (\<exists>ex. find (has_email (cast_string (js_get co ''email''))) (docs s) = Some ex
               \<and> js_keys (merge_fill dp ex co) = []
               \<and> m \<in> {''create_update_no_overwrite'', ''update_no_overwrite''})"
  shows "body fl dp m co c s =
     (Inr (c\<lparr>skipped := skipped c + 1\<rparr>),
      s\<lparr>oplog := oplog s @ [FindOne (cast_string (js_get co ''email''))]\<rparr>)"
  using assms by (auto simp: body_found resolve_def)


lemma body_update:
  assumes "truthy (js_get co ''email'')"
    and "fl (length (oplog s)) = None" and "fl (Suc (length (oplog s))) = None"
    and "find (has_email (cast_string (js_get co ''email''))) (docs s) = Some ex"
    and "(m \<in> {''create_update_overwrite'', ''update_overwrite''} \<and> u = co)
         \<or> (m \<in> {''create_update_no_overwrite'', ''update_no_overwrite''}
              \<and> u = merge_fill dp ex co \<and> js_keys u \<noteq> [])"
    and "cast_doc u \<noteq> []"
  shows "body fl dp m co c s =
     (Inr (c\<lparr>updated := updated c + 1\<rparr>),
      \<lparr>docs = update_first (has_email (cast_string (js_get co ''email'')))
                (apply_set (cast_doc u)) (docs s),
       oplog = oplog s @ [FindOne (cast_string (js_get co ''email'')),
                 UpdateOne (cast_string (js_get co ''email'')) (cast_doc u)]\<rparr>)"
  using assms by (auto simp: body_found await_def resolve_def updateOne_ok)

lemma body_update_fails:
  assumes "truthy (js_get co ''email'')"
    and "fl (length (oplog s)) = None" and "fl (Suc (length (oplog s))) = Some msg"
    and "find (has_email (cast_string (js_get co ''email''))) (docs s) = Some ex"
    and "(m \<in> {''create_update_overwrite'', ''update_overwrite''} \<and> u = co)
         \<or> (m \<in> {''create_update_no_overwrite'', ''update_no_overwrite''}
              \<and> u = merge_fill dp ex co \<and> js_keys u \<noteq> [])"
    and "cast_doc u \<noteq> []"
  shows "body fl dp m co c s =
     (Inl (StoreError msg),
      s\<lparr>oplog := oplog s @ [FindOne (cast_string (js_get co ''email'')),
                 UpdateOne (cast_string (js_get co ''email'')) (cast_doc u)]\<rparr>)"
  using assms by (auto simp: body_found await_def resolve_def updateOne_fails)

lemma find_has_email: "find (has_email q) ds = Some ex \<Longrightarrow> js_get ex ''email'' = q"
  by (auto simp: find_Some_iff has_email_def)

lemma email_declared: "''email'' \<in> set companySchema"
  by (simp add: companySchema_def)

lemma cast_doc_email:
  "truthy (js_get co ''email'') \<Longrightarrow>
     js_get (cast_doc co) ''email'' = cast_string (js_get co ''email'')"
  using truthy_present [of co "''email''"] by (simp add: js_get_cast_doc email_declared)

lemma cast_doc_with_email: "truthy (js_get co ''email'') \<Longrightarrow> cast_doc co \<noteq> []"
  using truthy_present [of co "''email''"] email_declared
  unfolding cast_doc_empty_iff by blast

lemma overwritten_keeps_email:
  assumes "truthy (js_get co ''email'')"
  shows "has_email (cast_string (js_get co ''email'')) (apply_set (cast_doc co) d)"
  using assms truthy_present [of co "''email''"]
  by (simp add: has_email_def js_get_stored email_declared)

lemma filled_keeps_email:
  assumes "find (has_email q) ds = Some ex" and "truthy q"
  shows "js_get (apply_set (cast_doc (merge_fill dp ex co)) d) ''email'' = js_get d ''email''"
proof -
  from assms have "truthy (cast_string (js_get ex ''email''))"
    by (simp add: find_has_email truthy_cast)
  then have "doc_truthy dp ex ''email''" by (simp add: doc_truthy_def email_declared)
  then show ?thesis by (simp add: js_get_filled)
qed

subsection \<open>The policy table\<close>


text \<open>
  C4. A record whose \<open>email\<close> is missing or falsy is counted as skipped, whatever the
  mode: the loop body returns the counters with \<open>skipped\<close> incremented and the store
  exactly as it was, so no lookup was issued (the log of requests is unchanged) and no
  document was touched; the loop goes on with the next record.
\<close>

theorem missing_email_skipped:
  assumes "\<not> truthy (js_get company ''email'')"
  shows "body fl dp importMode company c s = (Inr (c\<lparr>skipped := skipped c + 1\<rparr>), s)
       \<and> loop fl dp importMode (company # rest) c s =
           loop fl dp importMode rest (c\<lparr>skipped := skipped c + 1\<rparr>) s
       \<and> importCompanies fl dp [company] importMode s =
           (Inr \<lparr>inserted = 0, updated = 0, skipped = 1\<rparr>, s)"
  using assms by (simp add: body_def resolve_def await_def importCompanies_def)

theorem missing_email_skipped_witness:
  "\<not> truthy (js_get [(''name'', JStr ''A'')] ''email'')
   \<and> importCompanies (\<lambda>n. Some ''down'') plain_document [[(''name'', JStr ''A'')]]
        ''update_overwrite'' \<lparr>docs = [[(''email'', JStr ''a@x.com'')]], oplog = []\<rparr> =
      (Inr \<lparr>inserted = 0, updated = 0, skipped = 1\<rparr>,
       \<lparr>docs = [[(''email'', JStr ''a@x.com'')]], oplog = []\<rparr>)"
proof -
  have h: "\<not> truthy (js_get [(''name'', JStr ''A'')] ''email'')"
    by (simp add: js_get_def)
  from missing_email_skipped [OF h] show ?thesis using h by blast
qed

text \<open>
  C3. For a record with a truthy \<open>email\<close> and a store that answers (the lookup, and
  the \<open>create\<close> when one is sent), where a document matches when its email is the
  record's email cast to a string: when no document
  matches, the three create modes insert the record (one \<open>findOne\<close>, one \<open>create\<close> of
  what the schema makes of the row, \<open>inserted\<close> incremented) and the two update modes
  skip it with the documents unchanged (only the \<open>findOne\<close> was sent); when a document
  matches, \<open>create_new\<close> skips it with the documents unchanged.
\<close>

theorem no_match_policy:
  assumes "truthy (js_get company ''email'')"
    and "fl (length (oplog s)) = None"
  shows "(find (has_email (cast_string (js_get company ''email''))) (docs s) = None
            \<and> m \<in> {''create_new'', ''create_update_no_overwrite'', ''create_update_overwrite''}
            \<and> fl (Suc (length (oplog s))) = None
          \<longrightarrow> body fl dp m company c s =
                (Inr (c\<lparr>inserted := inserted c + 1\<rparr>),
                 \<lparr>docs = docs s @ [cast_doc company],
                  oplog = oplog s @ [FindOne (cast_string (js_get company ''email'')),
                            Create (cast_doc company)]\<rparr>))
       \<and> (find (has_email (cast_string (js_get company ''email''))) (docs s) = None
            \<and> m \<in> {''update_no_overwrite'', ''update_overwrite''}
          \<longrightarrow> body fl dp m company c s =
                (Inr (c\<lparr>skipped := skipped c + 1\<rparr>),
                 s\<lparr>oplog := oplog s @ [FindOne (cast_string (js_get company ''email''))]\<rparr>))
       \<and> (find (has_email (cast_string (js_get company ''email''))) (docs s) \<noteq> None
          \<longrightarrow> body fl dp ''create_new'' company c s =
                (Inr (c\<lparr>skipped := skipped c + 1\<rparr>),
                 s\<lparr>oplog := oplog s @ [FindOne (cast_string (js_get company ''email''))]\<rparr>))"
proof (intro conjI impI)
  assume "find (has_email (cast_string (js_get company ''email''))) (docs s) = None
            \<and> m \<in> {''create_new'', ''create_update_no_overwrite'', ''create_update_overwrite''}
            \<and> fl (Suc (length (oplog s))) = None"
  with assms show "body fl dp m company c s =
                (Inr (c\<lparr>inserted := inserted c + 1\<rparr>),
                 \<lparr>docs = docs s @ [cast_doc company],
                  oplog = oplog s @ [FindOne (cast_string (js_get company ''email'')),
                            Create (cast_doc company)]\<rparr>)"
    by (intro body_insert) simp_all
next
  assume "find (has_email (cast_string (js_get company ''email''))) (docs s) = None
            \<and> m \<in> {''update_no_overwrite'', ''update_overwrite''}"
  with assms show "body fl dp m company c s =
                (Inr (c\<lparr>skipped := skipped c + 1\<rparr>),
                 s\<lparr>oplog := oplog s @ [FindOne (cast_string (js_get company ''email''))]\<rparr>)"
    by (intro body_lookup_only) simp_all
next
  assume "find (has_email (cast_string (js_get company ''email''))) (docs s) \<noteq> None"
  with assms show "body fl dp ''create_new'' company c s =
                (Inr (c\<lparr>skipped := skipped c + 1\<rparr>),
                 s\<lparr>oplog := oplog s @ [FindOne (cast_string (js_get company ''email''))]\<rparr>)"
    by (intro body_lookup_only) simp_all
qed

theorem no_match_policy_witness:
  "body reliable plain_document ''create_new''
      [(''email'', JStr ''a@x.com''), (''name'', JStr ''A''), (''phone'', JNum 42),
       (''website'', JStr ''w'')]
      \<lparr>inserted = 0, updated = 0, skipped = 0\<rparr> \<lparr>docs = [], oplog = []\<rparr> =
     (Inr \<lparr>inserted = 1, updated = 0, skipped = 0\<rparr>,
      \<lparr>docs = [[(''email'', JStr ''a@x.com''), (''name'', JStr ''A''), (''phone'', JStr ''42'')]],
       oplog = [FindOne (JStr ''a@x.com''),
                Create [(''email'', JStr ''a@x.com''), (''name'', JStr ''A''),
                        (''phone'', JStr ''42'')]]\<rparr>)
   \<and> body reliable plain_document ''update_overwrite''
      [(''email'', JStr ''a@x.com''), (''name'', JStr ''A''), (''phone'', JNum 42),
       (''website'', JStr ''w'')]
      \<lparr>inserted = 0, updated = 0, skipped = 0\<rparr> \<lparr>docs = [], oplog = []\<rparr> =
     (Inr \<lparr>inserted = 0, updated = 0, skipped = 1\<rparr>,
      \<lparr>docs = [], oplog = [FindOne (JStr ''a@x.com'')]\<rparr>)
   \<and> body reliable plain_document ''create_new'' [(''email'', JNum 123), (''name'', JStr ''A'')]
      \<lparr>inserted = 0, updated = 0, skipped = 0\<rparr>
      \<lparr>docs = [[(''email'', JStr ''123''), (''name'', JStr ''B'')]], oplog = []\<rparr> =
     (Inr \<lparr>inserted = 0, updated = 0, skipped = 1\<rparr>,
      \<lparr>docs = [[(''email'', JStr ''123''), (''name'', JStr ''B'')]],
       oplog = [FindOne (JStr ''123'')]\<rparr>)"
proof -
  let ?co = "[(''email'', JStr ''a@x.com''), (''name'', JStr ''A''), (''phone'', JNum 42),
              (''website'', JStr ''w'')]"
  let ?cn = "[(''email'', JNum 123), (''name'', JStr ''A'')]"
  let ?c = "\<lparr>inserted = 0, updated = 0, skipped = 0\<rparr>"
  let ?s = "\<lparr>docs = [], oplog = []\<rparr>"
  let ?t = "\<lparr>docs = [[(''email'', JStr ''123''), (''name'', JStr ''B'')]], oplog = []\<rparr>"
  have e: "truthy (js_get ?co ''email'')" "truthy (js_get ?cn ''email'')"
    by (simp_all add: js_get_def)
  have r: "reliable (length (oplog ?s)) = None" "reliable (length (oplog ?t)) = None"
    by (simp_all add: reliable_def)
  have r': "reliable (Suc (length (oplog ?s))) = None" by (simp add: reliable_def)
  have n: "num_string 42 = ''42''" "num_string 123 = ''123''"
    by (simp_all add: num_string_def digits10.simps)
  from no_match_policy [where fl = reliable and s = ?s and company = ?co and dp = plain_document
           and c = ?c and m = "''create_new''", OF e(1) r(1)]
       no_match_policy [where fl = reliable and s = ?s and company = ?co and dp = plain_document
           and c = ?c and m = "''update_overwrite''", OF e(1) r(1)]
       no_match_policy [where fl = reliable and s = ?t and company = ?cn and dp = plain_document
           and c = ?c, OF e(2) r(2)] r'
  show ?thesis
    by (simp add: js_get_def js_keys_def has_email_def cast_doc_def companySchema_def n)
qed




subsection \<open>Whole runs\<close>

lemma loop_preserves:
  assumes step: "\<And>co c s r s'. body fl dp m co c s = (r, s') \<Longrightarrow> P s \<Longrightarrow> P s'"
    and "P s" and "loop fl dp m cos c s = (r, s')"
  shows "P s'"
  using assms(2,3)
proof (induction cos arbitrary: c s)
  case Nil
  then show ?case by (simp add: resolve_def)
next
  case (Cons co cos)
  obtain r1 s1 where b: "body fl dp m co c s = (r1, s1)" by (cases "body fl dp m co c s")
  with Cons.prems(1) have p1: "P s1" by (rule step[rotated -1])
  show ?case
  proof (cases r1)
    case (Inl err)
    with b Cons.prems(2) have "s' = s1" by (simp add: await_def)
    with p1 show ?thesis by simp
  next
    case (Inr c1)
    with b Cons.prems(2) have "loop fl dp m cos c1 s1 = (r, s')" by (simp add: await_def)
    with p1 show ?thesis by (rule Cons.IH)
  qed
qed

lemma importCompanies_preserves:
  assumes "\<And>co c s r s'. body fl dp m co c s = (r, s') \<Longrightarrow> P s \<Longrightarrow> P s'"
    and "P s"
  shows "P (snd (importCompanies fl dp cos m s))"
proof -
  obtain r s' where "importCompanies fl dp cos m s = (r, s')"
    by (cases "importCompanies fl dp cos m s")
  moreover from this have "loop fl dp m cos \<lparr>inserted = 0, updated = 0, skipped = 0\<rparr> s = (r, s')"
    by (simp add: importCompanies_def)
  from loop_preserves [where P = P, OF assms(1) assms(2) this] have "P s'" .
  ultimately show ?thesis by simp
qed

lemma loop_append:
  "loop fl dp m pre c0 s0 = (Inr c1, s1) \<Longrightarrow>
     loop fl dp m (pre @ rest) c0 s0 = loop fl dp m rest c1 s1"
proof (induction pre arbitrary: c0 s0)
  case Nil
  then show ?case by (simp add: resolve_def)
next
  case (Cons co pre)
  obtain r s where b: "body fl dp m co c0 s0 = (r, s)" by (cases "body fl dp m co c0 s0")
  with Cons.prems obtain c where r: "r = Inr c" and l: "loop fl dp m pre c s = (Inr c1, s1)"
    by (cases r) (auto simp: await_def)
  from Cons.IH [OF l] b r show ?case by (simp add: await_def)
qed

lemma body_keeps_truthy:
  assumes b: "body fl dp m co c s = (r, s')"
    and m: "m \<in> {''create_update_no_overwrite'', ''update_no_overwrite''}"
    and P: "i < length (docs s) \<and> js_get (docs s ! i) k = v" and v: "truthy v"
  shows "i < length (docs s') \<and> js_get (docs s' ! i) k = v"
proof -
  let ?q = "cast_string (js_get co ''email'')"
  from body_docs [OF b] m consider
      "docs s' = docs s"
    | "docs s' = docs s @ [cast_doc co]"
    | ex where "find (has_email ?q) (docs s) = Some ex"
        "docs s' = update_first (has_email ?q) (apply_set (cast_doc (merge_fill dp ex co))) (docs s)"
    by auto
  then show ?thesis
  proof cases
    case 1
    with P show ?thesis by simp
  next
    case 2
    with P show ?thesis by (simp add: nth_append)
  next
    case 3
    from P have i: "i < length (docs s)" by simp
    from nth_update_first [OF 3(1) i, of "apply_set (cast_doc (merge_fill dp ex co))"]
    have "js_get (docs s' ! i) k = js_get (docs s ! i) k"
    proof
      assume "update_first (has_email ?q) (apply_set (cast_doc (merge_fill dp ex co))) (docs s) ! i
                = docs s ! i"
      with 3(2) show ?thesis by simp
    next
      assume a: "docs s ! i = ex \<and>
        update_first (has_email ?q) (apply_set (cast_doc (merge_fill dp ex co))) (docs s) ! i =
          apply_set (cast_doc (merge_fill dp ex co)) ex"
      with P v have "truthy (js_get ex k)" by auto
      then have "truthy (cast_string (js_get ex k))" by (rule truthy_cast)
      then have "k \<in> set companySchema \<Longrightarrow> doc_truthy dp ex k" by (simp add: doc_truthy_def)
      then have "js_get (apply_set (cast_doc (merge_fill dp ex co)) ex) k = js_get ex k"
        by (auto simp: js_get_filled)
      with a 3(2) show ?thesis by simp
    qed
    with P 3(2) show ?thesis by (simp add: length_update_first)
  qed
qed

text \<open>
  C8. Under the two no-overwrite modes, a run of \<open>importCompanies\<close> over any records and
  with any failures of the store leaves every truthy field of every document that was in
  the store before the run at the value it had: the document is still at its place and
  the field reads the same.
\<close>

theorem merge_fill_monotone:
  assumes "m \<in> {''create_update_no_overwrite'', ''update_no_overwrite''}"
    and "i < length (docs s)" and "truthy (js_get (docs s ! i) k)"
  shows "i < length (docs (snd (importCompanies fl dp companies m s)))
       \<and> js_get (docs (snd (importCompanies fl dp companies m s)) ! i) k = js_get (docs s ! i) k"
proof -
  let ?P = "\<lambda>t. i < length (docs t) \<and> js_get (docs t ! i) k = js_get (docs s ! i) k"
  have "?P (snd (importCompanies fl dp companies m s))"
  proof (rule importCompanies_preserves)
    fix co c t r t'
    assume b: "body fl dp m co c t = (r, t')" and p: "?P t"
    from body_keeps_truthy [OF b assms(1) p assms(3)] show "?P t'" .
  next
    from assms(2) show "?P s" by simp
  qed
  then show ?thesis .
qed

theorem merge_fill_monotone_witness:
  "truthy (js_get (docs \<lparr>docs = [[(''email'', JStr ''a@x.com''), (''name'', JStr []),
                                  (''industry'', JStr ''Tech'')]], oplog = []\<rparr> ! 0) ''industry'')
   \<and> js_get (docs (snd (importCompanies reliable plain_document
        [[(''email'', JStr ''a@x.com''), (''name'', JStr ''A''), (''industry'', JStr ''Retail'')]]
        ''create_update_no_overwrite''
        \<lparr>docs = [[(''email'', JStr ''a@x.com''), (''name'', JStr []),
                  (''industry'', JStr ''Tech'')]], oplog = []\<rparr>)) ! 0) ''industry'' = JStr ''Tech''"
proof -
  let ?s = "\<lparr>docs = [[(''email'', JStr ''a@x.com''), (''name'', JStr []),
                       (''industry'', JStr ''Tech'')]], oplog = []\<rparr>"
  have m: "''create_update_no_overwrite'' \<in> {''create_update_no_overwrite'', ''update_no_overwrite''}"
    by simp
  have i: "0 < length (docs ?s)" by simp
  have t: "truthy (js_get (docs ?s ! 0) ''industry'')" by (simp add: js_get_def)
  from merge_fill_monotone [OF m i t] t show ?thesis by (simp add: js_get_def)
qed

lemma body_create_new:
  assumes "body fl dp ''create_new'' co c s = (r, s')"
  shows "(docs s' = docs s \<or> docs s' = docs s @ [cast_doc co])
       \<and> (oplog s' = oplog s @ [FindOne (cast_string (js_get co ''email''))]
          \<or> oplog s' = oplog s @ [FindOne (cast_string (js_get co ''email'')), Create (cast_doc co)]
          \<or> oplog s' = oplog s)"
  using assms
  unfolding body_def await_def resolve_def findOne_def create_def call_def
  by (auto split: option.splits if_splits)

text \<open>
  C10. A run of \<open>importCompanies\<close> in mode \<open>create_new\<close>, over any records and with any
  failures of the store, leaves the documents that were in the store before the run as
  they were, in their places (new documents are only appended after them), and issues no
  \<open>updateOne\<close>: the requests of the run are \<open>findOne\<close> and \<open>create\<close> only.
\<close>

theorem create_new_frame:
  "take (length (docs s)) (docs (snd (importCompanies fl dp companies ''create_new'' s))) = docs s
   \<and> take (length (oplog s)) (oplog (snd (importCompanies fl dp companies ''create_new'' s))) =
       oplog s
   \<and> (\<forall>op \<in> set (drop (length (oplog s))
                     (oplog (snd (importCompanies fl dp companies ''create_new'' s)))).
         (\<exists>e. op = FindOne e) \<or> (\<exists>d. op = Create d))"
proof -
  let ?P = "\<lambda>t. (\<exists>nd. docs t = docs s @ nd)
              \<and> (\<exists>nl. oplog t = oplog s @ nl
                     \<and> (\<forall>op \<in> set nl. (\<exists>e. op = FindOne e) \<or> (\<exists>d. op = Create d)))"
  have "?P (snd (importCompanies fl dp companies ''create_new'' s))"
  proof (rule importCompanies_preserves)
    fix co c t r t'
    assume b: "body fl dp ''create_new'' co c t = (r, t')" and p: "?P t"
    from p obtain nd nl where t: "docs t = docs s @ nd" "oplog t = oplog s @ nl"
      "\<forall>op \<in> set nl. (\<exists>e. op = FindOne e) \<or> (\<exists>d. op = Create d)" by blast
    from body_create_new [OF b] have "\<exists>nd'. docs t' = docs s @ nd'"
      using t(1) by auto
    moreover from body_create_new [OF b]
    have "\<exists>nl'. oplog t' = oplog s @ nl'
             \<and> (\<forall>op \<in> set nl'. (\<exists>e. op = FindOne e) \<or> (\<exists>d. op = Create d))"
      using t(2,3) by (elim conjE disjE) auto
    ultimately show "?P t'" by blast
  next
    show "?P s" by simp
  qed
  then obtain nd nl where
    "docs (snd (importCompanies fl dp companies ''create_new'' s)) = docs s @ nd"
    "oplog (snd (importCompanies fl dp companies ''create_new'' s)) = oplog s @ nl"
    "\<forall>op \<in> set nl. (\<exists>e. op = FindOne e) \<or> (\<exists>d. op = Create d)" by blast
  then show ?thesis by simp
qed

theorem create_new_frame_witness:
  "importCompanies reliable plain_document
      [[(''email'', JStr ''a@x.com''), (''name'', JStr ''A'')],
       [(''email'', JStr ''b@x.com''), (''name'', JStr ''B'')]]
      ''create_new''
      \<lparr>docs = [[(''email'', JStr ''a@x.com''), (''name'', JStr [])]], oplog = []\<rparr> =
     (Inr \<lparr>inserted = 1, updated = 0, skipped = 1\<rparr>,
      \<lparr>docs = [[(''email'', JStr ''a@x.com''), (''name'', JStr [])],
               [(''email'', JStr ''b@x.com''), (''name'', JStr ''B'')]],
       oplog = [FindOne (JStr ''a@x.com''), FindOne (JStr ''b@x.com''),
                Create [(''email'', JStr ''b@x.com''), (''name'', JStr ''B'')]]\<rparr>)
   \<and> take 1 (docs (snd (importCompanies reliable plain_document
      [[(''email'', JStr ''a@x.com''), (''name'', JStr ''A'')],
       [(''email'', JStr ''b@x.com''), (''name'', JStr ''B'')]]
      ''create_new''
      \<lparr>docs = [[(''email'', JStr ''a@x.com''), (''name'', JStr [])]], oplog = []\<rparr>))) =
     [[(''email'', JStr ''a@x.com''), (''name'', JStr [])]]"
proof -
  let ?s = "\<lparr>docs = [[(''email'', JStr ''a@x.com''), (''name'', JStr [])]], oplog = []\<rparr>"
  let ?cos = "[[(''email'', JStr ''a@x.com''), (''name'', JStr ''A'')],
               [(''email'', JStr ''b@x.com''), (''name'', JStr ''B'')]]"
  have run: "importCompanies reliable plain_document ?cos ''create_new'' ?s =
     (Inr \<lparr>inserted = 1, updated = 0, skipped = 1\<rparr>,
      \<lparr>docs = [[(''email'', JStr ''a@x.com''), (''name'', JStr [])],
               [(''email'', JStr ''b@x.com''), (''name'', JStr ''B'')]],
       oplog = [FindOne (JStr ''a@x.com''), FindOne (JStr ''b@x.com''),
                Create [(''email'', JStr ''b@x.com''), (''name'', JStr ''B'')]]\<rparr>)"
    by (simp add: importCompanies_def body_def await_def resolve_def findOne_def create_def
          call_def reliable_def js_get_def js_keys_def has_email_def cast_doc_def companySchema_def)
  from create_new_frame [of ?s reliable plain_document ?cos] have
    "take 1 (docs (snd (importCompanies reliable plain_document ?cos ''create_new'' ?s))) = docs ?s"
    by simp
  with run show ?thesis by simp
qed

subsection \<open>Records with another email\<close>

lemma find_snoc_other: "\<not> P d \<Longrightarrow> find P (ds @ [d]) = find P ds"
  by (induction ds) auto

lemma body_keeps_other:
  assumes b: "body fl dp m co c s = (r, s')"
    and o: "truthy (js_get co ''email'') \<longrightarrow> cast_string (js_get co ''email'') \<noteq> q"
  shows "find (has_email q) (docs s') = find (has_email q) (docs s)"
proof -
  let ?q' = "cast_string (js_get co ''email'')"
  from body_docs [OF b] consider
      "docs s' = docs s"
    | "truthy (js_get co ''email'')" "docs s' = docs s @ [cast_doc co]"
    | "truthy (js_get co ''email'')"
      "docs s' = update_first (has_email ?q') (apply_set (cast_doc co)) (docs s)"
    | ex where "truthy (js_get co ''email'')" "find (has_email ?q') (docs s) = Some ex"
        "docs s' = update_first (has_email ?q') (apply_set (cast_doc (merge_fill dp ex co))) (docs s)"
    by auto
  then show ?thesis
  proof cases
    case 1
    then show ?thesis by simp
  next
    case 2
    with o have "\<not> has_email q (cast_doc co)" by (simp add: has_email_def cast_doc_email)
    with 2(2) show ?thesis by (simp add: find_snoc_other)
  next
    case 3
    have "find (has_email q) (update_first (has_email ?q') (apply_set (cast_doc co)) (docs s)) =
          find (has_email q) (docs s)"
    proof (rule find_update_other)
      fix d assume "has_email ?q' d"
      moreover from 3(1) have "has_email ?q' (apply_set (cast_doc co) d)"
        by (rule overwritten_keeps_email)
      ultimately show "\<not> has_email q d \<and> \<not> has_email q (apply_set (cast_doc co) d)"
        using o 3(1) by (auto simp: has_email_def)
    qed
    with 3(2) show ?thesis by simp
  next
    case 4
    from 4(1) have t: "truthy ?q'" by (rule truthy_cast)
    have "find (has_email q)
            (update_first (has_email ?q') (apply_set (cast_doc (merge_fill dp ex co))) (docs s)) =
          find (has_email q) (docs s)"
    proof (rule find_update_other)
      fix d assume "has_email ?q' d"
      with filled_keeps_email [OF 4(2) t, of dp co d] o 4(1)
      show "\<not> has_email q d \<and> \<not> has_email q (apply_set (cast_doc (merge_fill dp ex co)) d)"
        by (auto simp: has_email_def)
    qed
    with 4(3) show ?thesis by simp
  qed
qed

lemma loop_keeps_other:
  assumes "loop fl dp m post c s = (r, s')"
    and "\<forall>p \<in> set post. truthy (js_get p ''email'') \<longrightarrow> cast_string (js_get p ''email'') \<noteq> q"
  shows "find (has_email q) (docs s') = find (has_email q) (docs s)"
  using assms
proof (induction post arbitrary: c s)
  case Nil
  then show ?case by (simp add: resolve_def)
next
  case (Cons p post)
  obtain r1 s1 where b: "body fl dp m p c s = (r1, s1)" by (cases "body fl dp m p c s")
  from Cons.prems(2) have "truthy (js_get p ''email'') \<longrightarrow> cast_string (js_get p ''email'') \<noteq> q"
    by simp
  with b have k: "find (has_email q) (docs s1) = find (has_email q) (docs s)"
    by (rule body_keeps_other)
  show ?case
  proof (cases r1)
    case (Inl err)
    with b Cons.prems(1) have "s' = s1" by (simp add: await_def)
    with k show ?thesis by simp
  next
    case (Inr c1)
    with b Cons.prems(1) have "loop fl dp m post c1 s1 = (r, s')" by (simp add: await_def)
    with Cons.prems(2) have "find (has_email q) (docs s') = find (has_email q) (docs s1)"
      by (intro Cons.IH) simp_all
    with k show ?thesis by simp
  qed
qed

lemma body_overwrite_result:
  assumes b: "body fl dp m co c s = (Inr c', s')"
    and m: "m \<in> {''create_update_overwrite'', ''update_overwrite''}"
    and e: "truthy (js_get co ''email'')"
    and f: "find (has_email (cast_string (js_get co ''email''))) (docs s) = Some ex"
  shows "fl (length (oplog s)) = None \<and> fl (Suc (length (oplog s))) = None"
proof -
  have ne: "cast_doc co \<noteq> []" using e by (rule cast_doc_with_email)
  have 1: "fl (length (oplog s)) = None"
  proof (cases "fl (length (oplog s))")
    case (Some msg)
    from body_lookup_fails [where fl = fl and s = s and co = co and dp = dp and m = m and c = c,
           OF e Some] b show ?thesis by simp
  qed simp
  have 2: "fl (Suc (length (oplog s))) = None"
  proof (cases "fl (Suc (length (oplog s)))")
    case (Some msg)
    from m have "(m \<in> {''create_update_overwrite'', ''update_overwrite''} \<and> co = co)
         \<or> (m \<in> {''create_update_no_overwrite'', ''update_no_overwrite''}
              \<and> co = merge_fill dp ex co \<and> js_keys co \<noteq> [])" by simp
    from body_update_fails [where fl = fl and s = s and co = co and u = co and c = c,
           OF e 1 Some f this ne] b show ?thesis by simp
  qed simp
  from 1 2 show ?thesis by simp
qed

text \<open>
  C2, as the code has it. Take a run in one of the two overwrite modes that returns, and
  in it a record with a truthy \<open>email\<close> for which, when its turn comes, a document \<open>ex\<close>
  is found under this email. The record is processed by one \<open>updateOne\<close> whose \<open>$set\<close>
  is what the schema makes of the incoming record, and \<open>updated\<close> is incremented. If no
  later record of the batch carries the same email, then after the import the document
  under this email holds, at every field of the schema that the record provides, the
  incoming value cast to a string (a string as it is), and its previous value everywhere
  else: a column the schema does not declare is not stored.
\<close>

theorem overwrite_policy:
  assumes "m \<in> {''create_update_overwrite'', ''update_overwrite''}"
    and "truthy (js_get company ''email'')"
    and "importCompanies fl dp pre m s0 = (Inr c1, s1)"
    and "find (has_email (cast_string (js_get company ''email''))) (docs s1) = Some ex"
    and "\<forall>p \<in> set post. truthy (js_get p ''email'') \<longrightarrow>
           cast_string (js_get p ''email'') \<noteq> cast_string (js_get company ''email'')"
    and "importCompanies fl dp (pre @ company # post) m s0 = (Inr result, s')"
  shows "body fl dp m company c1 s1 =
           (Inr (c1\<lparr>updated := updated c1 + 1\<rparr>),
            \<lparr>docs = update_first (has_email (cast_string (js_get company ''email'')))
                      (apply_set (cast_doc company)) (docs s1),
             oplog = oplog s1 @ [FindOne (cast_string (js_get company ''email'')),
                       UpdateOne (cast_string (js_get company ''email'')) (cast_doc company)]\<rparr>)
       \<and> find (has_email (cast_string (js_get company ''email''))) (docs s') =
          Some (apply_set (cast_doc company) ex)
       \<and> (\<forall>k \<in> set (js_keys company). k \<in> set companySchema \<longrightarrow>
             js_get (apply_set (cast_doc company) ex) k = cast_string (js_get company k))
       \<and> (\<forall>k. k \<notin> set (js_keys company) \<or> k \<notin> set companySchema \<longrightarrow>
             js_get (apply_set (cast_doc company) ex) k = js_get ex k)
       \<and> (\<forall>x. cast_string (JStr x) = JStr x)"
proof -
  let ?q = "cast_string (js_get company ''email'')"
  let ?z = "\<lparr>inserted = 0, updated = 0, skipped = 0\<rparr>"
  from assms(3) have "loop fl dp m pre ?z s0 = (Inr c1, s1)" by (simp add: importCompanies_def)
  then have "loop fl dp m (pre @ company # post) ?z s0 = loop fl dp m (company # post) c1 s1"
    by (rule loop_append)
  with assms(6) have l: "loop fl dp m (company # post) c1 s1 = (Inr result, s')"
    by (simp add: importCompanies_def)
  obtain r2 s2 where b: "body fl dp m company c1 s1 = (r2, s2)"
    by (cases "body fl dp m company c1 s1")
  with l obtain c2 where r2: "r2 = Inr c2" and rest: "loop fl dp m post c2 s2 = (Inr result, s')"
    by (cases r2) (auto simp: await_def)
  from b r2 have "body fl dp m company c1 s1 = (Inr c2, s2)" by simp
  from body_overwrite_result [OF this assms(1,2,4)]
  have ok: "fl (length (oplog s1)) = None" "fl (Suc (length (oplog s1))) = None" by simp_all
  from assms(1) have u: "(m \<in> {''create_update_overwrite'', ''update_overwrite''} \<and> company = company)
         \<or> (m \<in> {''create_update_no_overwrite'', ''update_no_overwrite''}
              \<and> company = merge_fill dp ex company \<and> js_keys company \<noteq> [])" by simp
  have step: "body fl dp m company c1 s1 =
           (Inr (c1\<lparr>updated := updated c1 + 1\<rparr>),
            \<lparr>docs = update_first (has_email ?q) (apply_set (cast_doc company)) (docs s1),
             oplog = oplog s1 @ [FindOne ?q, UpdateOne ?q (cast_doc company)]\<rparr>)"
    by (rule body_update [where u = company and ex = ex,
          OF assms(2) ok assms(4) u cast_doc_with_email [OF assms(2)]])
  with b have "s2 = \<lparr>docs = update_first (has_email ?q) (apply_set (cast_doc company)) (docs s1),
             oplog = oplog s1 @ [FindOne ?q, UpdateOne ?q (cast_doc company)]\<rparr>"
    by simp
  then have s2: "docs s2 = update_first (has_email ?q) (apply_set (cast_doc company)) (docs s1)"
    by simp
  from loop_keeps_other [OF rest assms(5)]
  have "find (has_email ?q) (docs s') = find (has_email ?q) (docs s2)" .
  also have "\<dots> = Some (apply_set (cast_doc company) ex)"
    unfolding s2
    by (rule find_update_first [where P = "has_email ?q" and f = "apply_set (cast_doc company)",
          OF assms(4) overwritten_keeps_email [OF assms(2)]])
  finally have after: "find (has_email ?q) (docs s') = Some (apply_set (cast_doc company) ex)" .
  have declared: "\<forall>k \<in> set (js_keys company). k \<in> set companySchema \<longrightarrow>
             js_get (apply_set (cast_doc company) ex) k = cast_string (js_get company k)"
    by (simp add: js_get_stored)
  have others: "\<forall>k. k \<notin> set (js_keys company) \<or> k \<notin> set companySchema \<longrightarrow>
             js_get (apply_set (cast_doc company) ex) k = js_get ex k"
    by (auto simp: js_get_stored)
  have strings: "\<forall>x. cast_string (JStr x) = JStr x" by simp
  show ?thesis
    by (intro conjI) (rule step after declared others strings)+
qed

theorem overwrite_policy_witness:
  "importCompanies reliable plain_document
      [[(''email'', JStr ''a@x.com''), (''name'', JStr ''A1'')],
       [(''email'', JStr ''a@x.com''), (''name'', JStr ''A''), (''industry'', JStr ''Retail'')],
       [(''email'', JStr ''b@x.com''), (''name'', JStr ''B'')]]
      ''update_overwrite''
      \<lparr>docs = [[(''email'', JStr ''a@x.com''), (''name'', JStr []), (''industry'', JStr ''Tech'')]],
       oplog = []\<rparr> =
     (Inr \<lparr>inserted = 0, updated = 2, skipped = 1\<rparr>,
      \<lparr>docs = [[(''email'', JStr ''a@x.com''), (''name'', JStr ''A''), (''industry'', JStr ''Retail'')]],
       oplog = [FindOne (JStr ''a@x.com''),
                UpdateOne (JStr ''a@x.com'') [(''email'', JStr ''a@x.com''), (''name'', JStr ''A1'')],
                FindOne (JStr ''a@x.com''),
                UpdateOne (JStr ''a@x.com'')
                  [(''email'', JStr ''a@x.com''), (''name'', JStr ''A''),
                   (''industry'', JStr ''Retail'')],
                FindOne (JStr ''b@x.com'')]\<rparr>)
   \<and> find (has_email (JStr ''a@x.com''))
        (docs (snd (importCompanies reliable plain_document
      [[(''email'', JStr ''a@x.com''), (''name'', JStr ''A1'')],
       [(''email'', JStr ''a@x.com''), (''name'', JStr ''A''), (''industry'', JStr ''Retail'')],
       [(''email'', JStr ''b@x.com''), (''name'', JStr ''B'')]]
      ''update_overwrite''
      \<lparr>docs = [[(''email'', JStr ''a@x.com''), (''name'', JStr []), (''industry'', JStr ''Tech'')]],
       oplog = []\<rparr>))) =
     Some [(''email'', JStr ''a@x.com''), (''name'', JStr ''A''), (''industry'', JStr ''Retail'')]"
proof -
  let ?s0 = "\<lparr>docs = [[(''email'', JStr ''a@x.com''), (''name'', JStr []),
                        (''industry'', JStr ''Tech'')]], oplog = []\<rparr>"
  let ?p = "[(''email'', JStr ''a@x.com''), (''name'', JStr ''A1'')]"
  let ?co = "[(''email'', JStr ''a@x.com''), (''name'', JStr ''A''), (''industry'', JStr ''Retail'')]"
  let ?b = "[(''email'', JStr ''b@x.com''), (''name'', JStr ''B'')]"
  let ?ex = "[(''email'', JStr ''a@x.com''), (''name'', JStr ''A1''), (''industry'', JStr ''Tech'')]"
  let ?s1 = "\<lparr>docs = [?ex],
              oplog = [FindOne (JStr ''a@x.com''),
                       UpdateOne (JStr ''a@x.com'')
                         [(''email'', JStr ''a@x.com''), (''name'', JStr ''A1'')]]\<rparr>"
  let ?s' = "\<lparr>docs = [?co],
       oplog = [FindOne (JStr ''a@x.com''),
                UpdateOne (JStr ''a@x.com'') [(''email'', JStr ''a@x.com''), (''name'', JStr ''A1'')],
                FindOne (JStr ''a@x.com''),
                UpdateOne (JStr ''a@x.com'')
                  [(''email'', JStr ''a@x.com''), (''name'', JStr ''A''),
                   (''industry'', JStr ''Retail'')],
                FindOne (JStr ''b@x.com'')]\<rparr>"
  note ev = importCompanies_def body_def await_def resolve_def findOne_def updateOne_def
    call_def reliable_def js_get_def js_keys_def has_email_def cast_doc_def apply_set_def
    companySchema_def
  have m: "''update_overwrite'' \<in> {''create_update_overwrite'', ''update_overwrite''}" by simp
  have e: "truthy (js_get ?co ''email'')" by (simp add: js_get_def)
  have pre: "importCompanies reliable plain_document [?p] ''update_overwrite'' ?s0 =
      (Inr \<lparr>inserted = 0, updated = 1, skipped = 0\<rparr>, ?s1)"
    by (simp add: ev)
  have f: "find (has_email (cast_string (js_get ?co ''email''))) (docs ?s1) = Some ?ex"
    by (simp add: js_get_def has_email_def)
  have later: "\<forall>p \<in> set [?b]. truthy (js_get p ''email'') \<longrightarrow>
      cast_string (js_get p ''email'') \<noteq> cast_string (js_get ?co ''email'')"
    by (simp add: js_get_def)
  have run: "importCompanies reliable plain_document ([?p] @ ?co # [?b]) ''update_overwrite'' ?s0 =
      (Inr \<lparr>inserted = 0, updated = 2, skipped = 1\<rparr>, ?s')"
    by (simp add: ev)
  from overwrite_policy [OF m e pre f later run] run
  show ?thesis by (simp add: js_get_def js_keys_def cast_doc_def apply_set_def companySchema_def)
qed

text \<open>
  The claim C2 as the spec states it fails in three ways. A number is stored as a string
  (\<open>phone\<close> 555 is stored as \<open>'555'\<close>) and a column the schema does not declare
  (\<open>website\<close>) is not stored, so after the import these provided fields do not equal
  the stored values; and of two records with the same email in one batch, the first does
  not keep its values until the end of the import.
\<close>

theorem overwrite_stores_exactly_counterexample:
  "importCompanies reliable plain_document
      [[(''email'', JStr ''a@x.com''), (''phone'', JNum 555), (''website'', JStr ''w'')]]
      ''update_overwrite''
      \<lparr>docs = [[(''email'', JStr ''a@x.com''), (''name'', JStr ''A'')]], oplog = []\<rparr> =
     (Inr \<lparr>inserted = 0, updated = 1, skipped = 0\<rparr>,
      \<lparr>docs = [[(''email'', JStr ''a@x.com''), (''name'', JStr ''A''), (''phone'', JStr ''555'')]],
       oplog = [FindOne (JStr ''a@x.com''),
                UpdateOne (JStr ''a@x.com'')
                  [(''email'', JStr ''a@x.com''), (''phone'', JStr ''555'')]]\<rparr>)
   \<and> js_get [(''email'', JStr ''a@x.com''), (''name'', JStr ''A''), (''phone'', JStr ''555'')]
        ''phone'' \<noteq> JNum 555
   \<and> js_get [(''email'', JStr ''a@x.com''), (''name'', JStr ''A''), (''phone'', JStr ''555'')]
        ''website'' \<noteq> JStr ''w''
   \<and> docs (snd (importCompanies reliable plain_document
        [[(''email'', JStr ''a@x.com''), (''name'', JStr ''A1'')],
         [(''email'', JStr ''a@x.com''), (''name'', JStr ''B'')]]
        ''update_overwrite''
        \<lparr>docs = [[(''email'', JStr ''a@x.com''), (''name'', JStr ''A'')]], oplog = []\<rparr>)) =
       [[(''email'', JStr ''a@x.com''), (''name'', JStr ''B'')]]"
proof -
  have n: "num_string 555 = ''555''" by (simp add: num_string_def digits10.simps)
  show ?thesis
    by (simp add: importCompanies_def body_def await_def resolve_def findOne_def updateOne_def
          call_def reliable_def js_get_def js_keys_def has_email_def cast_doc_def apply_set_def
          companySchema_def n)
qed

subsection \<open>The identity invariant\<close>

lemma unique_append:
  assumes "unique_emails ds" and "find (has_email (js_get d ''email'')) ds = None"
  shows "unique_emails (ds @ [d])"
proof -
  from assms(2) have "\<forall>x \<in> set ds. js_get x ''email'' \<noteq> js_get d ''email''"
    by (auto simp: find_None_iff has_email_def)
  then have "js_get d ''email'' \<notin> set (map (\<lambda>x. js_get x ''email'') ds)" by auto
  with assms(1) show ?thesis by (simp add: unique_emails_def)
qed

lemma unique_update_first:
  assumes "unique_emails ds" and "\<And>d. has_email q d \<Longrightarrow> js_get (f d) ''email'' = js_get d ''email''"
  shows "unique_emails (update_first (has_email q) f ds)"
proof -
  have "map (\<lambda>d. js_get d ''email'') (update_first (has_email q) f ds) =
        map (\<lambda>d. js_get d ''email'') ds"
    by (rule map_update_first) (rule assms(2))
  with assms(1) show ?thesis by (simp add: unique_emails_def)
qed

lemma body_unique:
  assumes b: "body fl dp m co c s = (r, s')" and u: "unique_emails (docs s)"
  shows "unique_emails (docs s')"
proof -
  let ?q = "cast_string (js_get co ''email'')"
  from body_docs [OF b] consider
      "docs s' = docs s"
    | "truthy (js_get co ''email'')" "find (has_email ?q) (docs s) = None"
      "docs s' = docs s @ [cast_doc co]"
    | "truthy (js_get co ''email'')"
      "docs s' = update_first (has_email ?q) (apply_set (cast_doc co)) (docs s)"
    | ex where "truthy (js_get co ''email'')" "find (has_email ?q) (docs s) = Some ex"
        "docs s' = update_first (has_email ?q) (apply_set (cast_doc (merge_fill dp ex co))) (docs s)"
    by auto
  then show ?thesis
  proof cases
    case 1
    with u show ?thesis by simp
  next
    case 2
    from 2(1,2) have "find (has_email (js_get (cast_doc co) ''email'')) (docs s) = None"
      by (simp add: cast_doc_email)
    with u 2(3) show ?thesis by (simp add: unique_append)
  next
    case 3
    have "unique_emails (update_first (has_email ?q) (apply_set (cast_doc co)) (docs s))"
    proof (rule unique_update_first [OF u])
      fix d assume "has_email ?q d"
      moreover from 3(1) have "has_email ?q (apply_set (cast_doc co) d)"
        by (rule overwritten_keeps_email)
      ultimately show "js_get (apply_set (cast_doc co) d) ''email'' = js_get d ''email''"
        by (simp add: has_email_def)
    qed
    with 3(2) show ?thesis by simp
  next
    case 4
    from 4(1) have t: "truthy ?q" by (rule truthy_cast)
    have "unique_emails
            (update_first (has_email ?q) (apply_set (cast_doc (merge_fill dp ex co))) (docs s))"
    proof (rule unique_update_first [OF u])
      fix d
      show "js_get (apply_set (cast_doc (merge_fill dp ex co)) d) ''email'' = js_get d ''email''"
        using 4(2) t by (rule filled_keeps_email)
    qed
    with 4(3) show ?thesis by simp
  qed
qed

lemma set_delete_first: "set (delete_first P ds) \<subseteq> set ds"
  by (induction ds) auto

lemma unique_delete_first:
  "unique_emails ds \<Longrightarrow> unique_emails (delete_first P ds)"
proof (induction ds)
  case Nil
  then show ?case by simp
next
  case (Cons d ds)
  show ?case
  proof (cases "P d")
    case True
    with Cons.prems show ?thesis by (simp add: unique_emails_def split: if_splits)
  next
    case False
    from Cons have "unique_emails (delete_first P ds)"
      by (simp add: unique_emails_def split: if_splits)
    moreover have "js_get d ''email'' \<in> set (map (\<lambda>d. js_get d ''email'') (delete_first P ds))
       \<Longrightarrow> js_get d ''email'' \<in> set (map (\<lambda>d. js_get d ''email'') ds)"
      using set_delete_first [of P ds] by auto
    ultimately show ?thesis
      using Cons.prems False by (auto simp: unique_emails_def split: if_splits)
  qed
qed

lemma post_import_unique:
  assumes "unique_emails (docs s)"
  shows "unique_emails (docs (snd (post_import fl dp upload importMode s)))"
proof -
  have run: "unique_emails (docs (snd (importCompanies fl dp cos m s)))" for cos m
  proof (rule importCompanies_preserves [where P = "\<lambda>t. unique_emails (docs t)"])
    fix co c t r t'
    assume "body fl dp m co c t = (r, t')" and "unique_emails (docs t)"
    then show "unique_emails (docs t')" by (rule body_unique)
  next
    show "unique_emails (docs s)" by (rule assms)
  qed
  show ?thesis
  proof (cases upload)
    case None
    with assms show ?thesis by (simp add: post_import_def)
  next
    case (Some parsed)
    show ?thesis
    proof (cases importMode)
      case None
      with Some assms show ?thesis by (simp add: post_import_def)
    next
      case (Some m)
      show ?thesis
      proof (cases parsed)
        case (Inl err)
        with \<open>upload = Some parsed\<close> Some assms show ?thesis by (simp add: post_import_def)
      next
        case (Inr cos)
        with \<open>upload = Some parsed\<close> Some assms run [of cos m] show ?thesis
          by (auto simp: post_import_def split: prod.splits sum.splits)
      qed
    qed
  qed
qed

lemma get_companies_docs: "docs (snd (get_companies fl s)) = docs s"
  by (simp add: get_companies_def find_docs_def call_def split: option.splits)

lemma delete_company_unique:
  assumes "unique_emails (docs s)"
  shows "unique_emails (docs (snd (delete_company fl email s)))"
  using assms unique_delete_first [of "docs s" "has_email (JStr email)"]
  by (simp add: delete_company_def deleteOne_def call_def split: option.splits)

lemma serve_unique:
  "unique_emails (docs s) \<Longrightarrow> unique_emails (docs (snd (serve fl dp rq s)))"
  by (cases rq) (simp_all add: post_import_unique get_companies_docs delete_company_unique)

text \<open>
  C7. When requests are served one after the other (imports in any mode and with any
  rows, listings, deletions, with any failures of the store), a store in which no two
  documents share a truthy \<open>email\<close> stays so: \<open>create\<close> is only issued after a
  \<open>findOne\<close> for the same email found nothing, and no \<open>$set\<close> changes the email of the
  document it is applied to.
\<close>

theorem identity_invariant:
  assumes "unique_emails (docs s)"
  shows "unique_emails (docs (serve_all fl dp requests s))"
  using assms
proof (induction requests arbitrary: s)
  case Nil
  then show ?case by simp
next
  case (Cons rq requests)
  from Cons.prems have "unique_emails (docs (snd (serve fl dp rq s)))" by (rule serve_unique)
  then show ?case by (simp add: Cons.IH)
qed

theorem identity_invariant_witness:
  "unique_emails (docs \<lparr>docs = [], oplog = []\<rparr>)
   \<and> unique_emails (docs (serve_all reliable plain_document
        [PostImport (Some (Inr [[(''email'', JStr ''a@x.com''), (''name'', JStr ''A'')],
                                [(''email'', JStr ''a@x.com''), (''name'', JStr ''B'')]]))
           (Some ''create_update_overwrite''),
         GetCompanies,
         DeleteCompany ''a@x.com'',
         PostImport (Some (Inr [[(''email'', JStr ''a@x.com''), (''name'', JStr ''C'')]]))
           (Some ''create_new'')]
        \<lparr>docs = [], oplog = []\<rparr>))"
proof -
  have h: "unique_emails (docs \<lparr>docs = [], oplog = []\<rparr>)"
    by (simp add: unique_emails_def)
  from identity_invariant [OF h] h show ?thesis by blast
qed

subsection \<open>Counters\<close>

lemma body_counts:
  assumes "body fl dp m co c s = (Inr c', s')"
    and "m \<in> {''create_new'', ''create_update_no_overwrite'', ''create_update_overwrite'',
              ''update_no_overwrite'', ''update_overwrite''}"
  shows "inserted c' + updated c' + skipped c' = inserted c + updated c + skipped c + 1"
  using assms
  unfolding body_def await_def resolve_def findOne_def create_def updateOne_def call_def
  by (auto split: option.splits if_splits)

lemma loop_counts:
  assumes "loop fl dp m cos c s = (Inr c', s')"
    and "m \<in> {''create_new'', ''create_update_no_overwrite'', ''create_update_overwrite'',
              ''update_no_overwrite'', ''update_overwrite''}"
  shows "inserted c' + updated c' + skipped c' = inserted c + updated c + skipped c + length cos"
  using assms(1)
proof (induction cos arbitrary: c s)
  case Nil
  then show ?case by (simp add: resolve_def)
next
  case (Cons co cos)
  obtain r1 s1 where b: "body fl dp m co c s = (r1, s1)" by (cases "body fl dp m co c s")
  with Cons.prems obtain c1 where r1: "r1 = Inr c1" and l: "loop fl dp m cos c1 s1 = (Inr c', s')"
    by (cases r1) (auto simp: await_def)
  from b r1 assms(2) have "inserted c1 + updated c1 + skipped c1 =
      inserted c + updated c + skipped c + 1" by (intro body_counts) simp_all
  with Cons.IH [OF l] show ?case by simp
qed

lemma counter_conservation_recognised:
  assumes "importCompanies fl dp companies m s = (Inr result, s')"
    and "m \<in> {''create_new'', ''create_update_no_overwrite'', ''create_update_overwrite'',
              ''update_no_overwrite'', ''update_overwrite''}"
  shows "inserted result + updated result + skipped result = length companies"
  using loop_counts [OF assms(1) [unfolded importCompanies_def] assms(2)] by simp

text \<open>
  C6. The sum of the three counters is the number of records only when the mode is one of
  the five cases of the \<open>switch\<close> (\<open>counter_conservation_recognised\<close>). The route accepts
  any non-empty mode, and for another mode a record with an email matches no case: it is
  looked up and then counted nowhere, so one record gives the counters 0, 0, 0.
\<close>

theorem unrecognised_mode_uncounted:
  "importCompanies reliable plain_document [[(''email'', JStr ''a@x.com''), (''name'', JStr ''A'')]]
      ''foo'' \<lparr>docs = [], oplog = []\<rparr> =
     (Inr \<lparr>inserted = 0, updated = 0, skipped = 0\<rparr>,
      \<lparr>docs = [], oplog = [FindOne (JStr ''a@x.com'')]\<rparr>)"
  by (simp add: importCompanies_def body_def await_def resolve_def findOne_def call_def
        reliable_def js_get_def)

subsection \<open>The import route\<close>

lemma post_import_no_file:
  "post_import fl dp None importMode s = (Response 400 (Message ''No file uploaded''), s)"
  by (simp add: post_import_def)

lemma post_import_no_mode:
  "importMode = None \<or> importMode = Some [] \<Longrightarrow>
     post_import fl dp (Some parsed) importMode s =
       (Response 400 (Message ''Import mode is required''), s)"
  by (auto simp: post_import_def)

text \<open>
  C5. The route answers 400 with a message, and leaves the store untouched, when there is
  no file (\<open>post_import_no_file\<close>) and when the mode is missing or empty
  (\<open>post_import_no_mode\<close>). A mode that is present but is none of the five is not
  rejected: the rows are parsed, every row with an email is looked up in the store, and
  the answer is 200 with status \<open>success\<close>.
\<close>

theorem unrecognised_mode_accepted:
  "post_import reliable plain_document
      (Some (Inr [[(''email'', JStr ''a@x.com''), (''name'', JStr ''A'')]]))
      (Some ''foo'') \<lparr>docs = [], oplog = []\<rparr> =
     (Response 200 (Summary ''success'' 0 0 0),
      \<lparr>docs = [], oplog = [FindOne (JStr ''a@x.com'')]\<rparr>)"
  by (simp add: post_import_def importCompanies_def body_def await_def resolve_def findOne_def
        call_def reliable_def js_get_def)

subsection \<open>Failures of the store\<close>

lemma abort_at:
  assumes "importCompanies fl dp pre m s0 = (Inr c1, s1)"
    and "body fl dp m company c1 s1 = (Inl err, t)"
  shows "importCompanies fl dp (pre @ company # post) m s0 = (Inl err, t)
       \<and> (m \<noteq> [] \<longrightarrow>
            post_import fl dp (Some (Inr (pre @ company # post))) (Some m) s0 =
              (Response 500 (Message (error_message err)), t))"
proof -
  from assms(1)
  have "loop fl dp m (pre @ company # post) \<lparr>inserted = 0, updated = 0, skipped = 0\<rparr> s0 =
      loop fl dp m (company # post) c1 s1"
    unfolding importCompanies_def by (rule loop_append)
  with assms(2) have run: "importCompanies fl dp (pre @ company # post) m s0 = (Inl err, t)"
    by (simp add: importCompanies_def await_def)
  then show ?thesis by (simp add: post_import_def)
qed

lemma abort_lookup:
  assumes "importCompanies fl dp pre m s0 = (Inr c1, s1)"
    and "truthy (js_get company ''email'')"
    and "fl (length (oplog s1)) = Some msg"
  shows "importCompanies fl dp (pre @ company # post) m s0 =
              (Inl (StoreError msg),
               s1\<lparr>oplog := oplog s1 @ [FindOne (cast_string (js_get company ''email''))]\<rparr>)
          \<and> (m \<noteq> [] \<longrightarrow>
               post_import fl dp (Some (Inr (pre @ company # post))) (Some m) s0 =
                 (Response 500 (Message msg),
                  s1\<lparr>oplog := oplog s1 @ [FindOne (cast_string (js_get company ''email''))]\<rparr>))"
proof -
  from assms(2,3) have "body fl dp m company c1 s1 =
      (Inl (StoreError msg),
       s1\<lparr>oplog := oplog s1 @ [FindOne (cast_string (js_get company ''email''))]\<rparr>)"
    by (rule body_lookup_fails)
  from abort_at [OF assms(1) this, of post] show ?thesis by simp
qed

lemma abort_insert:
  assumes "importCompanies fl dp pre m s0 = (Inr c1, s1)"
    and "truthy (js_get company ''email'')"
    and "fl (length (oplog s1)) = None" and "fl (Suc (length (oplog s1))) = Some msg"
    and "find (has_email (cast_string (js_get company ''email''))) (docs s1) = None"
    and "m \<in> {''create_new'', ''create_update_no_overwrite'', ''create_update_overwrite''}"
  shows "importCompanies fl dp (pre @ company # post) m s0 =
              (Inl (StoreError msg),
               s1\<lparr>oplog := oplog s1 @ [FindOne (cast_string (js_get company ''email'')),
                                       Create (cast_doc company)]\<rparr>)
          \<and> (m \<noteq> [] \<longrightarrow>
               post_import fl dp (Some (Inr (pre @ company # post))) (Some m) s0 =
                 (Response 500 (Message msg),
                  s1\<lparr>oplog := oplog s1 @ [FindOne (cast_string (js_get company ''email'')),
                                          Create (cast_doc company)]\<rparr>))"
proof -
  have "body fl dp m company c1 s1 =
      (Inl (StoreError msg),
       s1\<lparr>oplog := oplog s1 @ [FindOne (cast_string (js_get company ''email'')),
                               Create (cast_doc company)]\<rparr>)"
    by (rule body_insert_fails [OF assms(2-6)])
  from abort_at [OF assms(1) this, of post] show ?thesis by simp
qed

lemma abort_update:
  assumes "importCompanies fl dp pre m s0 = (Inr c1, s1)"
    and "truthy (js_get company ''email'')"
    and "fl (length (oplog s1)) = None" and "fl (Suc (length (oplog s1))) = Some msg"
    and "find (has_email (cast_string (js_get company ''email''))) (docs s1) = Some ex"
    and "(m \<in> {''create_update_overwrite'', ''update_overwrite''} \<and> u = company)
               \<or> (m \<in> {''create_update_no_overwrite'', ''update_no_overwrite''}
                    \<and> u = merge_fill dp ex company)"
    and "cast_doc u \<noteq> []"
  shows "importCompanies fl dp (pre @ company # post) m s0 =
              (Inl (StoreError msg),
               s1\<lparr>oplog := oplog s1 @ [FindOne (cast_string (js_get company ''email'')),
                         UpdateOne (cast_string (js_get company ''email'')) (cast_doc u)]\<rparr>)
          \<and> (m \<noteq> [] \<longrightarrow>
               post_import fl dp (Some (Inr (pre @ company # post))) (Some m) s0 =
                 (Response 500 (Message msg),
                  s1\<lparr>oplog := oplog s1 @ [FindOne (cast_string (js_get company ''email'')),
                            UpdateOne (cast_string (js_get company ''email'')) (cast_doc u)]\<rparr>))"
proof -
  have "js_keys u \<noteq> []"
  proof
    assume "js_keys u = []"
    then have "cast_doc u = []" by (simp add: cast_doc_empty_iff)
    with assms(7) show False by simp
  qed
  with assms(6) have u: "(m \<in> {''create_update_overwrite'', ''update_overwrite''} \<and> u = company)
         \<or> (m \<in> {''create_update_no_overwrite'', ''update_no_overwrite''}
              \<and> u = merge_fill dp ex company \<and> js_keys u \<noteq> [])"
    by (elim disjE conjE) simp_all
  have "body fl dp m company c1 s1 =
      (Inl (StoreError msg),
       s1\<lparr>oplog := oplog s1 @ [FindOne (cast_string (js_get company ''email'')),
                 UpdateOne (cast_string (js_get company ''email'')) (cast_doc u)]\<rparr>)"
    by (rule body_update_fails [where u = u and ex = ex, OF assms(2-5) u assms(7)])
  from abort_at [OF assms(1) this, of post] show ?thesis by simp
qed

text \<open>
  C9. Let the records before \<open>company\<close> have been processed, and let a request to the
  store fail while \<open>company\<close>, a record with an email, is processed: its lookup, or,
  after a lookup that answered, the \<open>create\<close> that a create mode issues when nothing was
  found, or the \<open>updateOne\<close> that is sent when a document was found (with the whole
  record in an overwrite mode, with the change set in a no-overwrite mode). Then the run
  over the whole input ends with that \<open>StoreError\<close>, whatever records follow: the failed
  request is the last one sent, the documents are those the records before have left
  (nothing is rolled back, nothing of the failed record is written), and the route
  answers 500 with the error's message.
\<close>

theorem store_failure_aborts:
  assumes "importCompanies fl dp pre m s0 = (Inr c1, s1)"
    and "truthy (js_get company ''email'')"
  shows "(fl (length (oplog s1)) = Some msg \<longrightarrow>
            importCompanies fl dp (pre @ company # post) m s0 =
              (Inl (StoreError msg),
               s1\<lparr>oplog := oplog s1 @ [FindOne (cast_string (js_get company ''email''))]\<rparr>)
          \<and> (m \<noteq> [] \<longrightarrow>
               post_import fl dp (Some (Inr (pre @ company # post))) (Some m) s0 =
                 (Response 500 (Message msg),
                  s1\<lparr>oplog := oplog s1 @ [FindOne (cast_string (js_get company ''email''))]\<rparr>)))
       \<and> (fl (length (oplog s1)) = None \<and> fl (Suc (length (oplog s1))) = Some msg
            \<and> find (has_email (cast_string (js_get company ''email''))) (docs s1) = None
            \<and> m \<in> {''create_new'', ''create_update_no_overwrite'', ''create_update_overwrite''}
          \<longrightarrow>
            importCompanies fl dp (pre @ company # post) m s0 =
              (Inl (StoreError msg),
               s1\<lparr>oplog := oplog s1 @ [FindOne (cast_string (js_get company ''email'')),
                                       Create (cast_doc company)]\<rparr>)
          \<and> (m \<noteq> [] \<longrightarrow>
               post_import fl dp (Some (Inr (pre @ company # post))) (Some m) s0 =
                 (Response 500 (Message msg),
                  s1\<lparr>oplog := oplog s1 @ [FindOne (cast_string (js_get company ''email'')),
                                          Create (cast_doc company)]\<rparr>)))
       \<and> (fl (length (oplog s1)) = None \<and> fl (Suc (length (oplog s1))) = Some msg
            \<and> find (has_email (cast_string (js_get company ''email''))) (docs s1) = Some ex
            \<and> ((m \<in> {''create_update_overwrite'', ''update_overwrite''} \<and> u = company)
               \<or> (m \<in> {''create_update_no_overwrite'', ''update_no_overwrite''}
                    \<and> u = merge_fill dp ex company))
            \<and> cast_doc u \<noteq> []
          \<longrightarrow>
            importCompanies fl dp (pre @ company # post) m s0 =
              (Inl (StoreError msg),
               s1\<lparr>oplog := oplog s1 @ [FindOne (cast_string (js_get company ''email'')),
                         UpdateOne (cast_string (js_get company ''email'')) (cast_doc u)]\<rparr>)
          \<and> (m \<noteq> [] \<longrightarrow>
               post_import fl dp (Some (Inr (pre @ company # post))) (Some m) s0 =
                 (Response 500 (Message msg),
                  s1\<lparr>oplog := oplog s1 @ [FindOne (cast_string (js_get company ''email'')),
                            UpdateOne (cast_string (js_get company ''email'')) (cast_doc u)]\<rparr>)))"
proof (intro conjI)
  show "fl (length (oplog s1)) = Some msg \<longrightarrow>
            importCompanies fl dp (pre @ company # post) m s0 =
              (Inl (StoreError msg),
               s1\<lparr>oplog := oplog s1 @ [FindOne (cast_string (js_get company ''email''))]\<rparr>)
          \<and> (m \<noteq> [] \<longrightarrow>
               post_import fl dp (Some (Inr (pre @ company # post))) (Some m) s0 =
                 (Response 500 (Message msg),
                  s1\<lparr>oplog := oplog s1 @ [FindOne (cast_string (js_get company ''email''))]\<rparr>))"
    by (rule impI) (rule abort_lookup [OF assms])
next
  show "fl (length (oplog s1)) = None \<and> fl (Suc (length (oplog s1))) = Some msg
            \<and> find (has_email (cast_string (js_get company ''email''))) (docs s1) = None
            \<and> m \<in> {''create_new'', ''create_update_no_overwrite'', ''create_update_overwrite''}
          \<longrightarrow>
            importCompanies fl dp (pre @ company # post) m s0 =
              (Inl (StoreError msg),
               s1\<lparr>oplog := oplog s1 @ [FindOne (cast_string (js_get company ''email'')),
                                       Create (cast_doc company)]\<rparr>)
          \<and> (m \<noteq> [] \<longrightarrow>
               post_import fl dp (Some (Inr (pre @ company # post))) (Some m) s0 =
                 (Response 500 (Message msg),
                  s1\<lparr>oplog := oplog s1 @ [FindOne (cast_string (js_get company ''email'')),
                                          Create (cast_doc company)]\<rparr>))"
  proof (rule impI, elim conjE)
    assume a: "fl (length (oplog s1)) = None" "fl (Suc (length (oplog s1))) = Some msg"
      "find (has_email (cast_string (js_get company ''email''))) (docs s1) = None"
      "m \<in> {''create_new'', ''create_update_no_overwrite'', ''create_update_overwrite''}"
    show "importCompanies fl dp (pre @ company # post) m s0 =
              (Inl (StoreError msg),
               s1\<lparr>oplog := oplog s1 @ [FindOne (cast_string (js_get company ''email'')),
                                       Create (cast_doc company)]\<rparr>)
          \<and> (m \<noteq> [] \<longrightarrow>
               post_import fl dp (Some (Inr (pre @ company # post))) (Some m) s0 =
                 (Response 500 (Message msg),
                  s1\<lparr>oplog := oplog s1 @ [FindOne (cast_string (js_get company ''email'')),
                                          Create (cast_doc company)]\<rparr>))"
      by (rule abort_insert [OF assms a])
  qed
next
  show "fl (length (oplog s1)) = None \<and> fl (Suc (length (oplog s1))) = Some msg
            \<and> find (has_email (cast_string (js_get company ''email''))) (docs s1) = Some ex
            \<and> ((m \<in> {''create_update_overwrite'', ''update_overwrite''} \<and> u = company)
               \<or> (m \<in> {''create_update_no_overwrite'', ''update_no_overwrite''}
                    \<and> u = merge_fill dp ex company))
            \<and> cast_doc u \<noteq> []
          \<longrightarrow>
            importCompanies fl dp (pre @ company # post) m s0 =
              (Inl (StoreError msg),
               s1\<lparr>oplog := oplog s1 @ [FindOne (cast_string (js_get company ''email'')),
                         UpdateOne (cast_string (js_get company ''email'')) (cast_doc u)]\<rparr>)
          \<and> (m \<noteq> [] \<longrightarrow>
               post_import fl dp (Some (Inr (pre @ company # post))) (Some m) s0 =
                 (Response 500 (Message msg),
                  s1\<lparr>oplog := oplog s1 @ [FindOne (cast_string (js_get company ''email'')),
                            UpdateOne (cast_string (js_get company ''email'')) (cast_doc u)]\<rparr>))"
  proof (rule impI, elim conjE)
    assume a: "fl (length (oplog s1)) = None" "fl (Suc (length (oplog s1))) = Some msg"
      "find (has_email (cast_string (js_get company ''email''))) (docs s1) = Some ex"
      "(m \<in> {''create_update_overwrite'', ''update_overwrite''} \<and> u = company)
               \<or> (m \<in> {''create_update_no_overwrite'', ''update_no_overwrite''}
                    \<and> u = merge_fill dp ex company)"
      "cast_doc u \<noteq> []"
    show "importCompanies fl dp (pre @ company # post) m s0 =
              (Inl (StoreError msg),
               s1\<lparr>oplog := oplog s1 @ [FindOne (cast_string (js_get company ''email'')),
                         UpdateOne (cast_string (js_get company ''email'')) (cast_doc u)]\<rparr>)
          \<and> (m \<noteq> [] \<longrightarrow>
               post_import fl dp (Some (Inr (pre @ company # post))) (Some m) s0 =
                 (Response 500 (Message msg),
                  s1\<lparr>oplog := oplog s1 @ [FindOne (cast_string (js_get company ''email'')),
                            UpdateOne (cast_string (js_get company ''email'')) (cast_doc u)]\<rparr>))"
      by (rule abort_update [OF assms a])
  qed
qed

theorem store_failure_aborts_witness:
  "importCompanies (\<lambda>n. if n = 2 then Some ''boom'' else None) plain_document
      [[(''email'', JStr ''a@x.com'')], [(''email'', JStr ''b@x.com'')], [(''email'', JStr ''c@x.com'')]]
      ''create_new'' \<lparr>docs = [], oplog = []\<rparr> =
     (Inl (StoreError ''boom''),
      \<lparr>docs = [[(''email'', JStr ''a@x.com'')]],
       oplog = [FindOne (JStr ''a@x.com''), Create [(''email'', JStr ''a@x.com'')],
                FindOne (JStr ''b@x.com'')]\<rparr>)
   \<and> importCompanies (\<lambda>n. if n = 3 then Some ''boom'' else None) plain_document
      [[(''email'', JStr ''a@x.com'')], [(''email'', JStr ''b@x.com'')], [(''email'', JStr ''c@x.com'')]]
      ''create_new'' \<lparr>docs = [], oplog = []\<rparr> =
     (Inl (StoreError ''boom''),
      \<lparr>docs = [[(''email'', JStr ''a@x.com'')]],
       oplog = [FindOne (JStr ''a@x.com''), Create [(''email'', JStr ''a@x.com'')],
                FindOne (JStr ''b@x.com''), Create [(''email'', JStr ''b@x.com'')]]\<rparr>)
   \<and> post_import (\<lambda>n. if n = 1 then Some ''boom'' else None) plain_document
      (Some (Inr [[(''email'', JStr ''a@x.com''), (''name'', JStr ''B'')],
                  [(''email'', JStr ''c@x.com'')]]))
      (Some ''update_overwrite'')
      \<lparr>docs = [[(''email'', JStr ''a@x.com''), (''name'', JStr ''A'')]], oplog = []\<rparr> =
     (Response 500 (Message ''boom''),
      \<lparr>docs = [[(''email'', JStr ''a@x.com''), (''name'', JStr ''A'')]],
       oplog = [FindOne (JStr ''a@x.com''),
                UpdateOne (JStr ''a@x.com'') [(''email'', JStr ''a@x.com''), (''name'', JStr ''B'')]]\<rparr>)"
proof -
  let ?f2 = "\<lambda>n::nat. if n = 2 then Some ''boom'' else None"
  let ?f3 = "\<lambda>n::nat. if n = 3 then Some ''boom'' else None"
  let ?f1 = "\<lambda>n::nat. if n = 1 then Some ''boom'' else None"
  let ?z = "\<lparr>inserted = 0, updated = 0, skipped = 0\<rparr>"
  let ?a = "[(''email'', JStr ''a@x.com'')]"
  let ?b = "[(''email'', JStr ''b@x.com'')]"
  let ?c = "[(''email'', JStr ''c@x.com'')]"
  let ?s1 = "\<lparr>docs = [?a], oplog = [FindOne (JStr ''a@x.com''), Create ?a]\<rparr>"
  let ?t = "\<lparr>docs = [[(''email'', JStr ''a@x.com''), (''name'', JStr ''A'')]], oplog = []\<rparr>"
  let ?u = "[(''email'', JStr ''a@x.com''), (''name'', JStr ''B'')]"
  note ev = importCompanies_def body_def await_def resolve_def findOne_def create_def call_def
    js_get_def js_keys_def has_email_def cast_doc_def companySchema_def
  have pre2: "importCompanies ?f2 plain_document [?a] ''create_new'' \<lparr>docs = [], oplog = []\<rparr> =
      (Inr \<lparr>inserted = 1, updated = 0, skipped = 0\<rparr>, ?s1)"
    by (simp add: ev)
  have pre3: "importCompanies ?f3 plain_document [?a] ''create_new'' \<lparr>docs = [], oplog = []\<rparr> =
      (Inr \<lparr>inserted = 1, updated = 0, skipped = 0\<rparr>, ?s1)"
    by (simp add: ev)
  have pre1: "importCompanies ?f1 plain_document [] ''update_overwrite'' ?t = (Inr ?z, ?t)"
    by (simp add: importCompanies_def resolve_def)
  have e: "truthy (js_get ?b ''email'')" "truthy (js_get ?u ''email'')"
    by (simp_all add: js_get_def)
  have l: "?f2 (length (oplog ?s1)) = Some ''boom''" by simp
  have i: "?f3 (length (oplog ?s1)) = None \<and> ?f3 (Suc (length (oplog ?s1))) = Some ''boom''
      \<and> find (has_email (cast_string (js_get ?b ''email''))) (docs ?s1) = None
      \<and> ''create_new'' \<in> {''create_new'', ''create_update_no_overwrite'', ''create_update_overwrite''}"
    by (simp add: js_get_def has_email_def)
  have u: "?f1 (length (oplog ?t)) = None \<and> ?f1 (Suc (length (oplog ?t))) = Some ''boom''
      \<and> find (has_email (cast_string (js_get ?u ''email''))) (docs ?t) =
          Some [(''email'', JStr ''a@x.com''), (''name'', JStr ''A'')]
      \<and> ((''update_overwrite'' \<in> {''create_update_overwrite'', ''update_overwrite''} \<and> ?u = ?u)
         \<or> (''update_overwrite'' \<in> {''create_update_no_overwrite'', ''update_no_overwrite''}
              \<and> ?u = merge_fill plain_document [(''email'', JStr ''a@x.com''), (''name'', JStr ''A'')] ?u))
      \<and> cast_doc ?u \<noteq> []"
    by (simp add: js_get_def js_keys_def has_email_def cast_doc_def companySchema_def)
  from store_failure_aborts [OF pre2 e(1), of "''boom''" "[?c]"] l
  have 1: "importCompanies ?f2 plain_document ([?a] @ ?b # [?c]) ''create_new''
      \<lparr>docs = [], oplog = []\<rparr> =
     (Inl (StoreError ''boom''),
      ?s1\<lparr>oplog := oplog ?s1 @ [FindOne (cast_string (js_get ?b ''email''))]\<rparr>)"
    by blast
  from store_failure_aborts [OF pre3 e(1), of "''boom''" "[?c]"] i
  have 2: "importCompanies ?f3 plain_document ([?a] @ ?b # [?c]) ''create_new''
      \<lparr>docs = [], oplog = []\<rparr> =
     (Inl (StoreError ''boom''),
      ?s1\<lparr>oplog := oplog ?s1 @ [FindOne (cast_string (js_get ?b ''email'')),
                                Create (cast_doc ?b)]\<rparr>)"
    by blast
  from store_failure_aborts [OF pre1 e(2),
      of "''boom''" "[?c]" "[(''email'', JStr ''a@x.com''), (''name'', JStr ''A'')]" ?u] u
  have 3: "post_import ?f1 plain_document (Some (Inr ([] @ ?u # [?c]))) (Some ''update_overwrite'') ?t =
     (Response 500 (Message ''boom''),
      ?t\<lparr>oplog := oplog ?t @ [FindOne (cast_string (js_get ?u ''email'')),
                UpdateOne (cast_string (js_get ?u ''email'')) (cast_doc ?u)]\<rparr>)"
    by simp
  from 1 2 3 show ?thesis
    by (simp add: js_get_def js_keys_def cast_doc_def companySchema_def)
qed

end
